theory Spec2Isabelle
  imports Complex_Main "HOL-Library.Multiset"
begin

section \<open>Data model (types.ts)\<close>

text \<open>
  JavaScript strings are modelled as \<open>string\<close>, every \<open>char\<close> standing for one code
  unit below 256. The timestamps (epoch milliseconds) are integers.
\<close>

record DocCacheEntry =
  crateName :: string
  projectPath :: string
  docPath :: string
  lastBuildTime :: int
  isBuilt :: bool

type_synonym CacheStorage = "string \<rightharpoonup> DocCacheEntry"

datatype DocErrorCode = INVALID_PATH | BUILD_FAILED | SEARCH_FAILED | CACHE_ERROR | CARGO_ERROR

text \<open>
  What a \<open>throw\<close> carries: a \<open>DocError\<close> with its code, message and \<open>details\<close> (the
  wrapped cause), a rejection coming from the Node runtime (\<open>fs\<close>, \<open>execa\<close>,
  \<open>JSON.parse\<close>), or a plain \<open>new Error(message)\<close>.
\<close>

datatype thrown =
    DocError DocErrorCode string "thrown option"
  | RuntimeError
  | Error string

section \<open>The world the program runs in\<close>

text \<open>Effects on the outside world, recorded in the order they are performed.\<close>

datatype event =
    FsAccess string
  | FsReaddir string
  | FsReadFile string
  | FsWriteFile
  | CargoMetadata string
  | CargoDoc "string list" string

text \<open>
  The mutable state: the in-memory store \<open>DocCache.cache\<close>, the store as last written to
  the cache file, the readings that the coming calls of \<open>Date.now()\<close> return, the outcomes
  of the coming calls of \<open>fs.writeFile\<close> (next first in both), and the effects so far.
  What a failed write leaves in the file is not fixed by the program; the model keeps the
  old content there.
\<close>

record world =
  cache :: CacheStorage
  disk :: CacheStorage
  clock :: "nat \<Rightarrow> int"
  writes :: "nat \<Rightarrow> bool"
  trace :: "event list"

type_synonym 'a io = "world \<Rightarrow> (thrown + 'a) \<times> world"

definition date_now :: "world \<Rightarrow> int \<times> world" where
  "date_now w = (clock w 0, w\<lparr>clock := (\<lambda>n. clock w (Suc n))\<rparr>)"

definition emit :: "event \<Rightarrow> world \<Rightarrow> world" where
  "emit ev w = w\<lparr>trace := trace w @ [ev]\<rparr>"

section \<open>The cache (cache.ts)\<close>

definition CACHE_TTL :: int where
  "CACHE_TTL = 24 * 60 * 60 * 1000"

definition save :: "unit io" where
  "save w =
     (let w' = emit FsWriteFile (w\<lparr>writes := (\<lambda>n. writes w (Suc n))\<rparr>) in
      if writes w 0 then (Inr (), w'\<lparr>disk := cache w\<rparr>)
      else (Inl (DocError CACHE_ERROR ''Failed to save cache'' (Some RuntimeError)), w'))"

definition getCacheKey :: "string \<Rightarrow> string \<Rightarrow> string" where
  "getCacheKey pp cn = pp @ '':'' @ cn"

definition get :: "string \<Rightarrow> string \<Rightarrow> DocCacheEntry option io" where
  "get pp cn w =
     (let key = getCacheKey pp cn in
      case cache w key of
        None \<Rightarrow> (Inr None, w)
      | Some entry \<Rightarrow>
          (case date_now w of (t, w1) \<Rightarrow>
             if t - lastBuildTime entry > CACHE_TTL then
               (case save (w1\<lparr>cache := (cache w1)(key := None)\<rparr>) of
                  (Inl e, w2) \<Rightarrow> (Inl e, w2)
                | (Inr u, w2) \<Rightarrow> (Inr None, w2))
             else (Inr (Some entry), w1)))"

text \<open>\<open>DocCache.set\<close>, under another name than that of the constant \<open>set\<close>.\<close>

definition set_entry :: "DocCacheEntry \<Rightarrow> unit io" where
  "set_entry entry w =
     (let key = getCacheKey (projectPath entry) (crateName entry) in
      case date_now w of (t, w1) \<Rightarrow>
        save (w1\<lparr>cache := (cache w1)(key \<mapsto> entry\<lparr>lastBuildTime := t\<rparr>)\<rparr>))"

section \<open>The documentation manager (doc-manager.ts)\<close>

subsection \<open>Result types, URLs and the Node runtime\<close>

text \<open>The code builds search results with a title and a URL only.\<close>

record SearchResult =
  title :: string
  url :: string

text \<open>
  A JavaScript \<open>number\<close>: a finite value, \<open>NaN\<close> or one of the two infinities. Every
  finite double is a rational, and the code only compares a number with an array length,
  which is exact; so the finite values are modelled by the rationals (\<open>-0\<close> is \<open>0\<close>).
\<close>

datatype number = Number rat | NaN | Infinity | NegInfinity

text \<open>\<open>limit?: number\<close>: \<open>None\<close> is \<open>undefined\<close>.\<close>

record SearchOptions =
  limit :: "number option"

text \<open>The members \<open>CONST\<close> and \<open>TYPE\<close> carry a prime: both words are reserved.\<close>

datatype SymbolType = STRUCT | ENUM | TRAIT | FUNCTION | CONST' | TYPE' | MACRO | MODULE

record SymbolInfo =
  name :: string
  type :: SymbolType
  path :: string
  url :: string

text \<open>
  A directory entry as \<open>fs.readdir(dir, {withFileTypes: true})\<close> reports it. A directory
  carries what \<open>readdir\<close> returns for it, a non-directory what \<open>fs.readFile\<close> returns for
  it; \<open>None\<close> is a call that throws.
\<close>

datatype dirent = FileEnt string "string option" | DirEnt string "dirent list option"

text \<open>What \<open>execa\<close> gives: a rejected promise, or a result with exit code and stderr.\<close>

datatype exec_result = Rejected | Resolved int string

text \<open>
  Everything outside the repository that its code calls: the file system, the two
  \<open>cargo\<close> commands (\<open>cargo_metadata\<close> is the \<open>target_directory\<close> of the parsed
  output, \<open>None\<close> when \<open>execa\<close> rejects or \<open>JSON.parse\<close> throws), and the functions of
  Node's \<open>path\<close> module and of \<open>String.prototype\<close> that the code uses.
\<close>

record env =
  fs_access :: "string \<Rightarrow> bool"
  fs_readdir :: "string \<Rightarrow> dirent list option"
  cargo_metadata :: "string \<Rightarrow> string option"
  cargo_doc :: "string list \<Rightarrow> string \<Rightarrow> exec_result"
  path_join :: "string list \<Rightarrow> string"
  path_dirname :: "string \<Rightarrow> string"
  path_basename :: "string \<Rightarrow> string \<Rightarrow> string"
  toLowerCase :: "string \<Rightarrow> string"
  localeCompare :: "string \<Rightarrow> string \<Rightarrow> int"

definition create :: "string \<Rightarrow> string" where
  "create p = ''rustdoc://'' @ p"

text \<open>\<open>String.prototype.includes\<close>: the argument occurs as a contiguous substring.\<close>

fun includesStr :: "string \<Rightarrow> string \<Rightarrow> bool" where
  "includesStr [] q = (q = [])"
| "includesStr (c # cs) q = (take (length q) (c # cs) = q \<or> includesStr cs q)"

definition endsWith :: "string \<Rightarrow> string \<Rightarrow> bool" where
  "endsWith s suffix = (length suffix \<le> length s \<and> drop (length s - length suffix) s = suffix)"

text \<open>
  \<open>Array.prototype.sort\<close> with a comparator: a stable sort, here by insertion. An element
  goes before the first element that it does not compare greater than.
\<close>

fun insertBy :: "('a \<Rightarrow> 'a \<Rightarrow> int) \<Rightarrow> 'a \<Rightarrow> 'a list \<Rightarrow> 'a list" where
  "insertBy cmp x [] = [x]"
| "insertBy cmp x (y # ys) = (if cmp x y \<le> 0 then x # y # ys else y # insertBy cmp x ys)"

definition jsSort :: "('a \<Rightarrow> 'a \<Rightarrow> int) \<Rightarrow> 'a list \<Rightarrow> 'a list" where
  "jsSort cmp xs = foldr (insertBy cmp) xs []"

subsection \<open>Project check and toolchain query\<close>

definition verifyProjectPath :: "env \<Rightarrow> string \<Rightarrow> unit io" where
  "verifyProjectPath env pp w =
     (let cargoToml = path_join env [pp, ''Cargo.toml''];
          w1 = emit (FsAccess cargoToml) w in
      if fs_access env cargoToml then (Inr (), w1)
      else (Inl (DocError INVALID_PATH
                  (''Invalid project path: '' @ pp @ ''. Cargo.toml not found.'') None), w1))"

definition getTargetDir :: "env \<Rightarrow> string \<Rightarrow> string io" where
  "getTargetDir env pp w =
     (let w1 = emit (CargoMetadata pp) w in
      case cargo_metadata env pp of
        Some targetDir \<Rightarrow> (Inr targetDir, w1)
      | None \<Rightarrow>
          (Inl (DocError CARGO_ERROR ''Failed to get target directory'' (Some RuntimeError)), w1))"

subsection \<open>checkDoc\<close>

text \<open>
  The inner \<open>try\<close> of \<open>checkDoc\<close>: \<open>fs.access\<close> and the \<open>set\<close> with \<open>isBuilt: true\<close>; its
  \<open>catch\<close> runs the \<open>set\<close> with \<open>isBuilt: false\<close> whatever was thrown. The entry literal
  reads the clock once before \<open>set\<close> reads it again.
\<close>

definition checkDoc_access :: "env \<Rightarrow> string \<Rightarrow> string \<Rightarrow> string \<Rightarrow> bool io" where
  "checkDoc_access env pp cn dp w =
     (let w1 = emit (FsAccess dp) w in
      case (if fs_access env dp then
              (case date_now w1 of (t, w2) \<Rightarrow>
                 set_entry \<lparr>crateName = cn, projectPath = pp, docPath = dp,
                            lastBuildTime = t, isBuilt = True\<rparr> w2)
            else (Inl RuntimeError, w1)) of
        (Inr u, w3) \<Rightarrow> (Inr True, w3)
      | (Inl e, w3) \<Rightarrow>
          (case date_now w3 of (t, w4) \<Rightarrow>
             (case set_entry \<lparr>crateName = cn, projectPath = pp, docPath = dp,
                              lastBuildTime = t, isBuilt = False\<rparr> w4 of
                (Inl e', w5) \<Rightarrow> (Inl e', w5)
              | (Inr u, w5) \<Rightarrow> (Inr False, w5))))"

text \<open>The outer \<open>try\<close> of \<open>checkDoc\<close>.\<close>

definition checkDoc_miss :: "env \<Rightarrow> string \<Rightarrow> string \<Rightarrow> bool io" where
  "checkDoc_miss env pp cn w =
     (case getTargetDir env pp w of
        (Inl e, w1) \<Rightarrow> (Inl e, w1)
      | (Inr targetDir, w1) \<Rightarrow>
          checkDoc_access env pp cn (path_join env [targetDir, ''doc'', cn, ''index.html'']) w1)"

definition checkDoc :: "env \<Rightarrow> string \<Rightarrow> string \<Rightarrow> bool io" where
  "checkDoc env pp cn w =
     (case verifyProjectPath env pp w of
        (Inl e, w1) \<Rightarrow> (Inl e, w1)
      | (Inr u, w1) \<Rightarrow>
          (case get pp cn w1 of
             (Inl e, w2) \<Rightarrow> (Inl e, w2)
           | (Inr (Some cached), w2) \<Rightarrow> (Inr (isBuilt cached), w2)
           | (Inr None, w2) \<Rightarrow>
               (case checkDoc_miss env pp cn w2 of
                  (Inl e, w3) \<Rightarrow>
                    (Inl (DocError CARGO_ERROR ''Failed to check documentation status'' (Some e)),
                     w3)
                | (Inr b, w3) \<Rightarrow> (Inr b, w3))))"

subsection \<open>buildDoc\<close>

text \<open>The \<open>try\<close> block of \<open>buildDoc\<close>.\<close>

definition buildDoc_try :: "env \<Rightarrow> string \<Rightarrow> string \<Rightarrow> bool \<Rightarrow> string io" where
  "buildDoc_try env pp cn noDeps w =
     (let args = [''doc'', ''--no-deps''] @ (if noDeps then [''--no-deps''] else [])
                   @ [''-p'', cn];
          w1 = emit (CargoDoc args pp) w in
      case cargo_doc env args pp of
        Rejected \<Rightarrow> (Inl RuntimeError, w1)
      | Resolved exitCode stderr \<Rightarrow>
          if exitCode = 0 then
            (case getTargetDir env pp w1 of
               (Inl e, w2) \<Rightarrow> (Inl e, w2)
             | (Inr targetDir, w2) \<Rightarrow>
                 (let dp = path_join env [targetDir, ''doc'', cn, ''index.html''] in
                  case date_now w2 of (t, w3) \<Rightarrow>
                    (case set_entry \<lparr>crateName = cn, projectPath = pp, docPath = dp,
                                     lastBuildTime = t, isBuilt = True\<rparr> w3 of
                       (Inl e, w4) \<Rightarrow> (Inl e, w4)
                     | (Inr u, w4) \<Rightarrow> (Inr dp, w4))))
          else (Inl (Error stderr), w1))"

definition buildDoc :: "env \<Rightarrow> string \<Rightarrow> string \<Rightarrow> bool \<Rightarrow> string io" where
  "buildDoc env pp cn noDeps w =
     (case verifyProjectPath env pp w of
        (Inl e, w1) \<Rightarrow> (Inl e, w1)
      | (Inr u, w1) \<Rightarrow>
          (case buildDoc_try env pp cn noDeps w1 of
             (Inl e, w2) \<Rightarrow>
               (Inl (DocError BUILD_FAILED ''Failed to build documentation'' (Some e)), w2)
           | (Inr dp, w2) \<Rightarrow> (Inr dp, w2)))"

subsection \<open>parseSymbolFromFile\<close>

definition symbolKeywords :: "(string \<times> SymbolType) list" where
  "symbolKeywords =
     [(''struct'', STRUCT), (''enum'', ENUM), (''trait'', TRAIT), (''fn'', FUNCTION),
      (''const'', CONST'), (''type'', TYPE'), (''macro'', MACRO), (''mod'', MODULE)]"

text \<open>The characters that \<open>.\<close> of a regular expression does not match.\<close>

definition lineTerminator :: "char \<Rightarrow> bool" where
  "lineTerminator c = (c = CHR 0x0A \<or> c = CHR 0x0D)"

text \<open>
  The regular expression \<open>^(struct|enum|trait|fn|const|type|macro|mod)\.(.+)\.html$\<close>:
  the alternatives are tried in order; after the keyword and a dot, \<open>(.+)\<close> must be what
  is left before the final \<open>.html\<close>, at least one character and no line terminator.
\<close>

fun matchSymbolFile :: "(string \<times> SymbolType) list \<Rightarrow> string \<Rightarrow> (SymbolType \<times> string) option"
  where
  "matchSymbolFile [] fileName = None"
| "matchSymbolFile ((kw, ty) # kws) fileName =
     (let pre = kw @ ''.'';
          rest = drop (length pre) fileName;
          nm = take (length rest - 5) rest in
      if take (length pre) fileName = pre \<and> endsWith rest ''.html'' \<and> nm \<noteq> []
         \<and> (\<forall>c \<in> set nm. \<not> lineTerminator c)
      then Some (ty, nm)
      else matchSymbolFile kws fileName)"

text \<open>\<open>name.replace(/-/g, '::')\<close>\<close>

definition replaceHyphens :: "string \<Rightarrow> string" where
  "replaceHyphens s = concat (map (\<lambda>c. if c = CHR ''-'' then ''::'' else [c]) s)"

definition parseSymbolFromFile :: "string \<Rightarrow> string \<Rightarrow> string \<Rightarrow> string \<Rightarrow> SymbolInfo option"
  where
  "parseSymbolFromFile fileName modulePath cn filePath =
     (case matchSymbolFile symbolKeywords fileName of
        None \<Rightarrow> None
      | Some (ty, nm) \<Rightarrow>
          (let symbolName = replaceHyphens nm;
               fullPath = (if modulePath \<noteq> [] then cn @ ''::'' @ modulePath @ ''::'' @ symbolName
                           else cn @ ''::'' @ symbolName) in
           Some \<lparr>name = symbolName, type = ty, path = fullPath, url = create filePath\<rparr>))"

subsection \<open>traverseDirectory\<close>

text \<open>
  A file handler gets the file name, the file path and the module path, as in the source,
  and what \<open>fs.readFile\<close> gives for that file should the handler call it. It threads the
  array it pushes to and the world. \<open>traverseDirectory\<close> takes what \<open>fs.readdir(docDir)\<close>
  returns; \<open>traverseEntries\<close> is its \<open>for\<close> loop.
\<close>

definition nextModulePath :: "string \<Rightarrow> string \<Rightarrow> string" where
  "nextModulePath modulePath nm = (if modulePath \<noteq> [] then modulePath @ ''::'' @ nm else nm)"

type_synonym 'a fileHandler =
  "string \<Rightarrow> string \<Rightarrow> string \<Rightarrow> string option \<Rightarrow> 'a \<Rightarrow> world \<Rightarrow> (thrown + 'a) \<times> world"

fun traverseDirectory ::
    "env \<Rightarrow> string \<Rightarrow> string \<Rightarrow> string \<Rightarrow> 'a fileHandler \<Rightarrow> dirent list option \<Rightarrow> 'a
       \<Rightarrow> world \<Rightarrow> (thrown + 'a) \<times> world"
  and traverseEntries ::
    "env \<Rightarrow> string \<Rightarrow> string \<Rightarrow> string \<Rightarrow> 'a fileHandler \<Rightarrow> dirent list \<Rightarrow> 'a
       \<Rightarrow> world \<Rightarrow> (thrown + 'a) \<times> world"
  where
  "traverseDirectory env docDir cn modulePath h None acc w =
     (Inl RuntimeError, emit (FsReaddir docDir) w)"
| "traverseDirectory env docDir cn modulePath h (Some entries) acc w =
     traverseEntries env docDir cn modulePath h entries acc (emit (FsReaddir docDir) w)"
| "traverseEntries env docDir cn modulePath h [] acc w = (Inr acc, w)"
| "traverseEntries env docDir cn modulePath h (DirEnt nm sub # es) acc w =
     (if nm = ''src'' \<or> nm = ''implementors'' then
        traverseEntries env docDir cn modulePath h es acc w
      else
        (case traverseDirectory env (path_join env [docDir, nm]) cn
                (nextModulePath modulePath nm) h sub acc w of
           (Inl e, w1) \<Rightarrow> (Inl e, w1)
         | (Inr acc1, w1) \<Rightarrow> traverseEntries env docDir cn modulePath h es acc1 w1))"
| "traverseEntries env docDir cn modulePath h (FileEnt nm content # es) acc w =
     (if endsWith nm ''.html'' \<and> nm \<noteq> ''index.html'' then
        (case h nm (path_join env [docDir, nm]) modulePath content acc w of
           (Inl e, w1) \<Rightarrow> (Inl e, w1)
         | (Inr acc1, w1) \<Rightarrow> traverseEntries env docDir cn modulePath h es acc1 w1)
      else traverseEntries env docDir cn modulePath h es acc w)"

subsection \<open>searchDoc\<close>

text \<open>
  \<open>options.limit && results.length >= options.limit\<close>: \<open>undefined\<close>, \<open>0\<close> and \<open>NaN\<close> are
  falsy; no length reaches \<open>Infinity\<close>, every length reaches \<open>-Infinity\<close>.
\<close>

definition limitReached :: "SearchOptions \<Rightarrow> 'a list \<Rightarrow> bool" where
  "limitReached options results =
     (case limit options of
        None \<Rightarrow> False
      | Some NaN \<Rightarrow> False
      | Some Infinity \<Rightarrow> False
      | Some NegInfinity \<Rightarrow> True
      | Some (Number l) \<Rightarrow> l \<noteq> 0 \<and> of_nat (length results) \<ge> l)"

definition searchHandler ::
    "env \<Rightarrow> string \<Rightarrow> string \<Rightarrow> SearchOptions \<Rightarrow> SearchResult list fileHandler" where
  "searchHandler env cn query options fileName filePath modulePath content results w =
     (if limitReached options results then (Inr results, w)
      else
        (let w1 = emit (FsReadFile filePath) w in
         case content of
           None \<Rightarrow> (Inl RuntimeError, w1)
         | Some text \<Rightarrow>
             if includesStr (toLowerCase env text) (toLowerCase env query) then
               (Inr (results @
                  [\<lparr>title = (case parseSymbolFromFile fileName modulePath cn filePath of
                               Some symbol \<Rightarrow> path symbol
                             | None \<Rightarrow> path_basename env fileName ''.html''),
                    SearchResult.url = create filePath\<rparr>]), w1)
             else (Inr results, w1)))"

definition searchDoc ::
    "env \<Rightarrow> string \<Rightarrow> string \<Rightarrow> string \<Rightarrow> SearchOptions \<Rightarrow> SearchResult list io" where
  "searchDoc env pp cn query options w =
     (case checkDoc env pp cn w of
        (Inl e, w1) \<Rightarrow> (Inl e, w1)
      | (Inr built, w1) \<Rightarrow>
          if \<not> built then
            (Inl (DocError SEARCH_FAILED
                    ''Documentation not built. Please build the documentation first.'' None), w1)
          else
            (case get pp cn w1 of
               (Inl e, w2) \<Rightarrow> (Inl e, w2)
             | (Inr None, w2) \<Rightarrow>
                 (Inl (DocError CACHE_ERROR ''Cache error: Documentation entry not found'' None),
                  w2)
             | (Inr (Some cached), w2) \<Rightarrow>
                 (let docDir = path_dirname env (docPath cached) in
                  case traverseDirectory env docDir cn [] (searchHandler env cn query options)
                         (fs_readdir env docDir) [] w2 of
                    (Inl e, w3) \<Rightarrow>
                      (Inl (DocError SEARCH_FAILED ''Failed to search documentation'' (Some e)),
                       w3)
                  | (Inr results, w3) \<Rightarrow>
                      (Inr (jsSort (\<lambda>a b. localeCompare env (title a) (title b)) results),
                       w3))))"

subsection \<open>listSymbols\<close>

definition symbolHandler :: "string \<Rightarrow> SymbolInfo list fileHandler" where
  "symbolHandler cn fileName filePath modulePath content symbols w =
     (case parseSymbolFromFile fileName modulePath cn filePath of
        Some symbol \<Rightarrow> (Inr (symbols @ [symbol]), w)
      | None \<Rightarrow> (Inr symbols, w))"

definition listSymbols :: "env \<Rightarrow> string \<Rightarrow> string \<Rightarrow> SymbolInfo list io" where
  "listSymbols env pp cn w =
     (case checkDoc env pp cn w of
        (Inl e, w1) \<Rightarrow> (Inl e, w1)
      | (Inr built, w1) \<Rightarrow>
          if \<not> built then
            (Inl (DocError SEARCH_FAILED
                    ''Documentation not built. Please build the documentation first.'' None), w1)
          else
            (case get pp cn w1 of
               (Inl e, w2) \<Rightarrow> (Inl e, w2)
             | (Inr None, w2) \<Rightarrow>
                 (Inl (DocError CACHE_ERROR ''Cache error: Documentation entry not found'' None),
                  w2)
             | (Inr (Some cached), w2) \<Rightarrow>
                 (let docDir = path_dirname env (docPath cached) in
                  case traverseDirectory env docDir cn [] (symbolHandler cn)
                         (fs_readdir env docDir) [] w2 of
                    (Inl e, w3) \<Rightarrow>
                      (Inl (DocError SEARCH_FAILED ''Failed to list symbols'' (Some e)), w3)
                  | (Inr symbols, w3) \<Rightarrow>
                      (Inr (jsSort (\<lambda>a b. localeCompare env (path a) (path b)) symbols),
                       w3))))"

section \<open>Notions used to state the properties\<close>

text \<open>
  A comparator that \<open>Array.prototype.sort\<close> can sort by: any two elements compare one way
  or the other, and transitively so.
\<close>

definition consistentComparator :: "('a \<Rightarrow> 'a \<Rightarrow> int) \<Rightarrow> bool" where
  "consistentComparator cmp =
     ((\<forall>a b. cmp a b \<le> 0 \<or> cmp b a \<le> 0)
      \<and> (\<forall>a b c. cmp a b \<le> 0 \<longrightarrow> cmp b c \<le> 0 \<longrightarrow> cmp a c \<le> 0))"

text \<open>The events that read the documentation tree.\<close>

fun isTraversal :: "event \<Rightarrow> bool" where
  "isTraversal (FsReaddir d) = True"
| "isTraversal (FsReadFile f) = True"
| "isTraversal ev = False"

text \<open>
  A listing without its directories named \<open>src\<close> or \<open>implementors\<close>, at every level:
  the directories go with everything below them.
\<close>

fun prune :: "dirent list \<Rightarrow> dirent list" where
  "prune [] = []"
| "prune (FileEnt nm content # es) = FileEnt nm content # prune es"
| "prune (DirEnt nm sub # es) =
     (if nm = ''src'' \<or> nm = ''implementors'' then prune es
      else DirEnt nm (case sub of None \<Rightarrow> None | Some entries \<Rightarrow> Some (prune entries))
             # prune es)"

definition pruned :: "env \<Rightarrow> env" where
  "pruned env =
     env\<lparr>fs_readdir := (\<lambda>d. case fs_readdir env d of None \<Rightarrow> None
                                | Some entries \<Rightarrow> Some (prune entries))\<rparr>"

text \<open>
  The documentation files of a listing, in directory-entry order, each with its file
  name, file path, module path and content: the files ending in \<open>.html\<close> other than
  \<open>index.html\<close>, outside the directories named \<open>src\<close> or \<open>implementors\<close>.
\<close>

fun docFiles ::
    "env \<Rightarrow> string \<Rightarrow> string \<Rightarrow> dirent list \<Rightarrow> (string \<times> string \<times> string \<times> string option) list"
  where
  "docFiles env docDir modulePath [] = []"
| "docFiles env docDir modulePath (FileEnt nm content # es) =
     (if endsWith nm ''.html'' \<and> nm \<noteq> ''index.html''
      then [(nm, path_join env [docDir, nm], modulePath, content)] else [])
     @ docFiles env docDir modulePath es"
| "docFiles env docDir modulePath (DirEnt nm sub # es) =
     (if nm = ''src'' \<or> nm = ''implementors'' then []
      else (case sub of
              None \<Rightarrow> []
            | Some entries \<Rightarrow>
                docFiles env (path_join env [docDir, nm]) (nextModulePath modulePath nm)
                  entries))
     @ docFiles env docDir modulePath es"

text \<open>A comparator that compares two different elements as equal in no case.\<close>

definition strictComparator :: "('a \<Rightarrow> 'a \<Rightarrow> int) \<Rightarrow> bool" where
  "strictComparator cmp = (\<forall>a b. cmp a b \<le> 0 \<and> cmp b a \<le> 0 \<longrightarrow> a = b)"

text \<open>
  The symbols of a listing in traversal order: what \<open>parseSymbolFromFile\<close> gives for its
  documentation files.
\<close>

definition symbolsIn :: "env \<Rightarrow> string \<Rightarrow> string \<Rightarrow> string \<Rightarrow> dirent list \<Rightarrow> SymbolInfo list" where
  "symbolsIn env cn docDir modulePath entries =
     List.map_filter
       (\<lambda>f. case f of (fileName, filePath, modulePath', content) \<Rightarrow>
          parseSymbolFromFile fileName modulePath' cn filePath)
       (docFiles env docDir modulePath entries)"

text \<open>
  Search as the specification words it: a file matches when its content contains the
  query, both in lower case; its result is titled by the fully-qualified path of the
  symbol parsed from the file name, or else by the bare file name.
\<close>

definition queryMatches :: "env \<Rightarrow> string \<Rightarrow> (string \<times> string \<times> string \<times> string option) \<Rightarrow> bool"
  where
  "queryMatches env query f =
     (case f of (fileName, filePath, modulePath, content) \<Rightarrow>
        (case content of
           None \<Rightarrow> False
         | Some text \<Rightarrow> includesStr (toLowerCase env text) (toLowerCase env query)))"

definition resultFor ::
    "env \<Rightarrow> string \<Rightarrow> (string \<times> string \<times> string \<times> string option) \<Rightarrow> SearchResult" where
  "resultFor env cn f =
     (case f of (fileName, filePath, modulePath, content) \<Rightarrow>
        \<lparr>title = (case parseSymbolFromFile fileName modulePath cn filePath of
                     Some symbol \<Rightarrow> path symbol
                   | None \<Rightarrow> path_basename env fileName ''.html''),
         SearchResult.url = create filePath\<rparr>)"

definition allMatches :: "env \<Rightarrow> string \<Rightarrow> string \<Rightarrow> string \<Rightarrow> dirent list \<Rightarrow> SearchResult list"
  where
  "allMatches env cn query docDir entries =
     map (resultFor env cn) (filter (queryMatches env query) (docFiles env docDir [] entries))"

definition byTitle :: "env \<Rightarrow> SearchResult \<Rightarrow> SearchResult \<Rightarrow> int" where
  "byTitle env a b = localeCompare env (title a) (title b)"

definition byPath :: "env \<Rightarrow> SymbolInfo \<Rightarrow> SymbolInfo \<Rightarrow> int" where
  "byPath env a b = localeCompare env (path a) (path b)"

text \<open>How many results the handler lets through: \<open>None\<close> is no bound.\<close>

definition resultBound :: "SearchOptions \<Rightarrow> nat option" where
  "resultBound options =
     (case limit options of
        None \<Rightarrow> None
      | Some NaN \<Rightarrow> None
      | Some Infinity \<Rightarrow> None
      | Some NegInfinity \<Rightarrow> Some 0
      | Some (Number l) \<Rightarrow> if l = 0 then None else Some (nat \<lceil>l\<rceil>))"

text \<open>
  What the results array holds after the handler has been offered the matches \<open>ms\<close> in
  turn, starting from \<open>acc\<close>.
\<close>

definition collected :: "SearchOptions \<Rightarrow> 'a list \<Rightarrow> 'a list \<Rightarrow> 'a list" where
  "collected options acc ms =
     (case resultBound options of
        None \<Rightarrow> acc @ ms
      | Some k \<Rightarrow> acc @ take (k - length acc) ms)"

definition matchesIn ::
    "env \<Rightarrow> string \<Rightarrow> string \<Rightarrow> string \<Rightarrow> string \<Rightarrow> dirent list \<Rightarrow> SearchResult list" where
  "matchesIn env cn query docDir modulePath entries =
     map (resultFor env cn)
       (filter (queryMatches env query) (docFiles env docDir modulePath entries))"

text \<open>The reads of the documentation tree among the effects so far.\<close>

definition traversalEvents :: "world \<Rightarrow> event list" where
  "traversalEvents w = filter isTraversal (trace w)"

text \<open>
  The entry that \<open>checkDoc\<close> stores on a miss, for the output root \<open>targetDir\<close>, when
  \<open>set\<close> reads the time \<open>t\<close>.
\<close>

definition entryPoint :: "env \<Rightarrow> string \<Rightarrow> string \<Rightarrow> string" where
  "entryPoint env targetDir cn = path_join env [targetDir, ''doc'', cn, ''index.html'']"

definition statusEntry :: "env \<Rightarrow> string \<Rightarrow> string \<Rightarrow> string \<Rightarrow> int \<Rightarrow> DocCacheEntry" where
  "statusEntry env pp cn targetDir t =
     \<lparr>crateName = cn, projectPath = pp, docPath = entryPoint env targetDir cn,
      lastBuildTime = t, isBuilt = fs_access env (entryPoint env targetDir cn)\<rparr>"

section \<open>A sample project\<close>

text \<open>
  Stand-ins for the runtime's functions on the inputs used below: joining with \<open>/\<close>,
  dropping the last path segment, dropping a file extension, lower case of the ASCII
  letters, and comparison of strings code unit by code unit.
\<close>

fun joinSegments :: "string list \<Rightarrow> string" where
  "joinSegments [] = ''.''"
| "joinSegments [s] = s"
| "joinSegments (s # t # ss) = s @ ''/'' @ joinSegments (t # ss)"

definition parentDir :: "string \<Rightarrow> string" where
  "parentDir p = rev (drop 1 (dropWhile (\<lambda>c. c \<noteq> CHR ''/'') (rev p)))"

definition stripExt :: "string \<Rightarrow> string \<Rightarrow> string" where
  "stripExt p ext = (if endsWith p ext then take (length p - length ext) p else p)"

definition asciiLower :: "string \<Rightarrow> string" where
  "asciiLower s =
     map (\<lambda>c. case map_of (zip ''ABCDEFGHIJKLMNOPQRSTUVWXYZ'' ''abcdefghijklmnopqrstuvwxyz'') c of
                None \<Rightarrow> c | Some d \<Rightarrow> d) s"

fun compareStrings :: "string \<Rightarrow> string \<Rightarrow> int" where
  "compareStrings [] [] = 0"
| "compareStrings [] (y # ys) = - 1"
| "compareStrings (x # xs) [] = 1"
| "compareStrings (x # xs) (y # ys) =
     (if (of_char x :: nat) < of_char y then - 1
      else if (of_char y :: nat) < of_char x then 1
      else compareStrings xs ys)"

definition sampleTree :: "dirent list" where
  "sampleTree =
     [FileEnt ''index.html'' (Some ''Crate widget''),
      FileEnt ''struct.Foo-Bar.html'' (Some ''A Widget factory''),
      DirEnt ''src'' (Some [FileEnt ''struct.Hidden.html'' (Some ''widget source'')]),
      FileEnt ''all.html'' (Some ''List of all items: widget''),
      DirEnt ''util'' (Some
        [FileEnt ''fn.run.html'' (Some ''Runs the WIDGET''),
         DirEnt ''implementors'' None,
         FileEnt ''enum.Mode.html'' (Some ''Modes'')]),
      FileEnt ''notes.txt'' (Some ''widget'')]"

definition sampleEnv :: env where
  "sampleEnv =
     \<lparr>fs_access = (\<lambda>p. p = ''/proj/Cargo.toml'' \<or> p = ''/t/doc/my-crate/index.html''),
      fs_readdir = (\<lambda>d. if d = ''/t/doc/my-crate'' then Some sampleTree else None),
      cargo_metadata = (\<lambda>cwd. if cwd = ''/proj'' then Some ''/t'' else None),
      cargo_doc = (\<lambda>args cwd. Resolved 0 []),
      path_join = joinSegments,
      path_dirname = parentDir,
      path_basename = stripExt,
      toLowerCase = asciiLower,
      localeCompare = compareStrings\<rparr>"

definition sampleWorld :: world where
  "sampleWorld =
     \<lparr>cache = Map.empty, disk = Map.empty, clock = (\<lambda>n. 1000 + int n),
      writes = (\<lambda>n. True), trace = []\<rparr>"

text \<open>An entry saying "not built", although the sample file system has the entry point.\<close>

definition sampleEntry :: DocCacheEntry where
  "sampleEntry =
     \<lparr>crateName = ''my-crate'', projectPath = ''/proj'',
      docPath = ''/t/doc/my-crate/index.html'', lastBuildTime = 900, isBuilt = False\<rparr>"

text \<open>A world in which the first write of the cache file fails and the later ones succeed.\<close>

definition flakyWorld :: world where
  "flakyWorld = sampleWorld\<lparr>writes := (\<lambda>n. n \<noteq> 0)\<rparr>"

text \<open>A function and a macro of the same name: two symbols with one path.\<close>

definition tieListing :: "dirent list" where
  "tieListing = [FileEnt ''fn.foo.html'' (Some []), FileEnt ''macro.foo.html'' (Some [])]"

section \<open>Cache properties\<close>

lemma cache_date_now [simp]: "cache (snd (date_now w)) = cache w"
  by (simp add: date_now_def)

lemma cache_save [simp]: "cache (snd (save w)) = cache w"
  by (simp add: save_def emit_def Let_def)

lemma cache_set_entry:
  "cache (snd (set_entry e w)) =
     (cache w)(getCacheKey (projectPath e) (crateName e) \<mapsto> e\<lparr>lastBuildTime := clock w 0\<rparr>)"
  by (simp add: set_entry_def Let_def date_now_def split: prod.splits)

lemma clock_set_entry: "clock (snd (set_entry e w)) = (\<lambda>n. clock w (Suc n))"
  by (simp add: set_entry_def Let_def date_now_def save_def emit_def split: prod.splits)

text \<open>
  Claim C3 (cache round-trip). \<open>set(e)\<close> followed by \<open>get(e.projectPath, e.crateName)\<close>,
  with no more than the TTL between the two clock readings, returns \<open>e\<close> with
  \<open>lastBuildTime\<close> replaced by the reading taken by \<open>set\<close>; every other field is the one
  of \<open>e\<close>. This holds whether or not the write of the cache file succeeds.
\<close>

theorem set_get_roundtrip:
  assumes "clock w 1 - clock w 0 \<le> CACHE_TTL"
  shows "fst (get (projectPath e) (crateName e) (snd (set_entry e w)))
           = Inr (Some (e\<lparr>lastBuildTime := clock w 0\<rparr>))"
  using assms
  by (simp add: get_def Let_def cache_set_entry clock_set_entry date_now_def)

theorem set_get_roundtrip_witness:
  "(\<lambda>n. 1000 + int n) 1 - (\<lambda>n. 1000 + int n) 0 \<le> CACHE_TTL \<and>
   fst (get ''/proj'' ''my-crate''
          (snd (set_entry
             \<lparr>crateName = ''my-crate'', projectPath = ''/proj'',
              docPath = ''/t/doc/my-crate/index.html'', lastBuildTime = 7, isBuilt = True\<rparr>
             \<lparr>cache = Map.empty, disk = Map.empty, clock = (\<lambda>n. 1000 + int n),
              writes = (\<lambda>n. False), trace = []\<rparr>)))
     = Inr (Some \<lparr>crateName = ''my-crate'', projectPath = ''/proj'',
              docPath = ''/t/doc/my-crate/index.html'', lastBuildTime = 1000, isBuilt = True\<rparr>)"
  using set_get_roundtrip
    [of "\<lparr>cache = Map.empty, disk = Map.empty, clock = (\<lambda>n. 1000 + int n),
          writes = (\<lambda>n. False), trace = []\<rparr>"
        "\<lparr>crateName = ''my-crate'', projectPath = ''/proj'',
          docPath = ''/t/doc/my-crate/index.html'', lastBuildTime = 7, isBuilt = True\<rparr>"]
  by (simp add: CACHE_TTL_def)

text \<open>
  Claim C4 (cache expiry). When the stored entry for the key is older than the TTL
  (\<open>now - lastBuildTime > TTL\<close>), \<open>get\<close> removes it from the store; when the write of the
  cache file succeeds, the file holds the store without the entry and \<open>get\<close> returns
  absent (a failed write is reported as \<open>CACHE_ERROR\<close> instead).
\<close>

theorem get_expired:
  assumes "cache w (getCacheKey pp cn) = Some e"
    and "clock w 0 - lastBuildTime e > CACHE_TTL"
  shows "cache (snd (get pp cn w)) = (cache w)(getCacheKey pp cn := None)
       \<and> cache (snd (get pp cn w)) (getCacheKey pp cn) = None
       \<and> (writes w 0 \<longrightarrow>
             fst (get pp cn w) = Inr None
           \<and> disk (snd (get pp cn w)) = (cache w)(getCacheKey pp cn := None)
           \<and> disk (snd (get pp cn w)) (getCacheKey pp cn) = None)
       \<and> (\<not> writes w 0 \<longrightarrow>
             fst (get pp cn w)
               = Inl (DocError CACHE_ERROR ''Failed to save cache'' (Some RuntimeError)))"
  using assms
  by (simp add: get_def Let_def date_now_def save_def emit_def)

theorem get_expired_witness:
  "cache (sampleWorld\<lparr>cache := [''/proj:my-crate'' \<mapsto> sampleEntry],
                      clock := (\<lambda>n. 900 + CACHE_TTL + 1)\<rparr>) (getCacheKey ''/proj'' ''my-crate'')
     = Some sampleEntry
   \<and> clock (sampleWorld\<lparr>cache := [''/proj:my-crate'' \<mapsto> sampleEntry],
                        clock := (\<lambda>n. 900 + CACHE_TTL + 1)\<rparr>) 0 - lastBuildTime sampleEntry
       > CACHE_TTL
   \<and> writes (sampleWorld\<lparr>cache := [''/proj:my-crate'' \<mapsto> sampleEntry],
                         clock := (\<lambda>n. 900 + CACHE_TTL + 1)\<rparr>) 0
   \<and> fst (get ''/proj'' ''my-crate''
             (sampleWorld\<lparr>cache := [''/proj:my-crate'' \<mapsto> sampleEntry],
                          clock := (\<lambda>n. 900 + CACHE_TTL + 1)\<rparr>)) = Inr None
   \<and> cache (snd (get ''/proj'' ''my-crate''
             (sampleWorld\<lparr>cache := [''/proj:my-crate'' \<mapsto> sampleEntry],
                          clock := (\<lambda>n. 900 + CACHE_TTL + 1)\<rparr>))) ''/proj:my-crate'' = None
   \<and> disk (snd (get ''/proj'' ''my-crate''
             (sampleWorld\<lparr>cache := [''/proj:my-crate'' \<mapsto> sampleEntry],
                          clock := (\<lambda>n. 900 + CACHE_TTL + 1)\<rparr>))) ''/proj:my-crate'' = None"
  using get_expired
    [of "sampleWorld\<lparr>cache := [''/proj:my-crate'' \<mapsto> sampleEntry],
                      clock := (\<lambda>n. 900 + CACHE_TTL + 1)\<rparr>"
        "''/proj''" "''my-crate''" sampleEntry]
  by (simp add: sampleWorld_def sampleEntry_def getCacheKey_def)

section \<open>Properties of checkDoc\<close>

lemmas checkDoc_defs = checkDoc_def verifyProjectPath_def get_def checkDoc_miss_def
  getTargetDir_def checkDoc_access_def set_entry_def save_def date_now_def emit_def Let_def
  entryPoint_def statusEntry_def

lemmas sample_defs = sampleEnv_def sampleWorld_def sampleEntry_def sampleTree_def parentDir_def
  stripExt_def asciiLower_def

lemma checkDoc_hit:
  assumes "fs_access env (path_join env [pp, ''Cargo.toml''])"
    and "cache w (getCacheKey pp cn) = Some e"
    and "clock w 0 - lastBuildTime e \<le> CACHE_TTL"
  shows "checkDoc env pp cn w =
           (Inr (isBuilt e),
            w\<lparr>clock := (\<lambda>n. clock w (Suc n)),
              trace := trace w @ [FsAccess (path_join env [pp, ''Cargo.toml''])]\<rparr>)"
  using assms by (simp add: checkDoc_defs)

lemma checkDoc_fresh:
  assumes "fs_access env (path_join env [pp, ''Cargo.toml''])"
    and "cache w (getCacheKey pp cn) = None"
    and "cargo_metadata env pp = Some td"
    and "writes w 0"
  shows "checkDoc env pp cn w =
           (Inr (fs_access env (entryPoint env td cn)),
            w\<lparr>cache := (cache w)(getCacheKey pp cn \<mapsto> statusEntry env pp cn td (clock w 1)),
              disk := (cache w)(getCacheKey pp cn \<mapsto> statusEntry env pp cn td (clock w 1)),
              clock := (\<lambda>n. clock w (Suc (Suc n))),
              writes := (\<lambda>n. writes w (Suc n)),
              trace := trace w @ [FsAccess (path_join env [pp, ''Cargo.toml'']), CargoMetadata pp,
                 FsAccess (entryPoint env td cn), FsWriteFile]\<rparr>)"
  using assms by (simp add: checkDoc_defs)

lemma checkDoc_expired:
  assumes "fs_access env (path_join env [pp, ''Cargo.toml''])"
    and "cache w (getCacheKey pp cn) = Some e"
    and "clock w 0 - lastBuildTime e > CACHE_TTL"
    and "cargo_metadata env pp = Some td"
    and "writes w 0" and "writes w 1"
  shows "checkDoc env pp cn w =
           (Inr (fs_access env (entryPoint env td cn)),
            w\<lparr>cache := (cache w)(getCacheKey pp cn \<mapsto> statusEntry env pp cn td (clock w 2)),
              disk := (cache w)(getCacheKey pp cn \<mapsto> statusEntry env pp cn td (clock w 2)),
              clock := (\<lambda>n. clock w (Suc (Suc (Suc n)))),
              writes := (\<lambda>n. writes w (Suc (Suc n))),
              trace := trace w @ [FsAccess (path_join env [pp, ''Cargo.toml'']), FsWriteFile,
                 CargoMetadata pp, FsAccess (entryPoint env td cn), FsWriteFile]\<rparr>)"
  using assms by (simp add: checkDoc_defs numeral_2_eq_2)

text \<open>
  Claim C1 (status caching), for a project whose manifest is found. When the store holds
  an unexpired entry for the key, \<open>checkDoc\<close> returns its \<open>isBuilt\<close> flag, and its only
  effects are the manifest check and one clock reading (no toolchain call, no look at
  the entry point, no change of the store). On a miss (no entry, or an expired one that
  \<open>get\<close> removes), when the metadata query succeeds and the writes of the cache file
  succeed, it queries the toolchain, checks the entry point
  \<open>targetDir/doc/crateName/index.html\<close>, stores an entry with that path and the outcome
  of the check as \<open>isBuilt\<close> (true or false), persists it, and returns the outcome.
\<close>

theorem checkDoc_status_caching:
  assumes "fs_access env (path_join env [pp, ''Cargo.toml''])"
  shows "(cache w (getCacheKey pp cn) = Some e \<longrightarrow> clock w 0 - lastBuildTime e \<le> CACHE_TTL \<longrightarrow>
            checkDoc env pp cn w =
              (Inr (isBuilt e),
               w\<lparr>clock := (\<lambda>n. clock w (Suc n)),
                 trace := trace w @ [FsAccess (path_join env [pp, ''Cargo.toml''])]\<rparr>))
       \<and> (cache w (getCacheKey pp cn) = None \<longrightarrow> cargo_metadata env pp = Some td \<longrightarrow>
          writes w 0 \<longrightarrow>
            checkDoc env pp cn w =
              (Inr (fs_access env (entryPoint env td cn)),
               w\<lparr>cache := (cache w)(getCacheKey pp cn \<mapsto> statusEntry env pp cn td (clock w 1)),
                 disk := (cache w)(getCacheKey pp cn \<mapsto> statusEntry env pp cn td (clock w 1)),
                 clock := (\<lambda>n. clock w (Suc (Suc n))),
                 writes := (\<lambda>n. writes w (Suc n)),
                 trace := trace w @ [FsAccess (path_join env [pp, ''Cargo.toml'']),
                    CargoMetadata pp, FsAccess (entryPoint env td cn), FsWriteFile]\<rparr>))
       \<and> (cache w (getCacheKey pp cn) = Some e \<longrightarrow> clock w 0 - lastBuildTime e > CACHE_TTL \<longrightarrow>
          cargo_metadata env pp = Some td \<longrightarrow> writes w 0 \<longrightarrow> writes w 1 \<longrightarrow>
            checkDoc env pp cn w =
              (Inr (fs_access env (entryPoint env td cn)),
               w\<lparr>cache := (cache w)(getCacheKey pp cn \<mapsto> statusEntry env pp cn td (clock w 2)),
                 disk := (cache w)(getCacheKey pp cn \<mapsto> statusEntry env pp cn td (clock w 2)),
                 clock := (\<lambda>n. clock w (Suc (Suc (Suc n)))),
                 writes := (\<lambda>n. writes w (Suc (Suc n))),
                 trace := trace w @ [FsAccess (path_join env [pp, ''Cargo.toml'']), FsWriteFile,
                    CargoMetadata pp, FsAccess (entryPoint env td cn), FsWriteFile]\<rparr>))"
  using assms checkDoc_hit [of env pp w cn e] checkDoc_fresh [of env pp w cn td]
    checkDoc_expired [of env pp w cn e td]
  by blast

theorem checkDoc_status_caching_witness:
  "fs_access sampleEnv (path_join sampleEnv [''/proj'', ''Cargo.toml''])
   \<and> cache (sampleWorld\<lparr>cache := [''/proj:my-crate'' \<mapsto> sampleEntry]\<rparr>)
        (getCacheKey ''/proj'' ''my-crate'') = Some sampleEntry
   \<and> clock (sampleWorld\<lparr>cache := [''/proj:my-crate'' \<mapsto> sampleEntry]\<rparr>) 0
        - lastBuildTime sampleEntry \<le> CACHE_TTL
   \<and> fs_access sampleEnv (entryPoint sampleEnv ''/t'' ''my-crate'')
   \<and> fst (checkDoc sampleEnv ''/proj'' ''my-crate''
             (sampleWorld\<lparr>cache := [''/proj:my-crate'' \<mapsto> sampleEntry]\<rparr>)) = Inr False
   \<and> trace (snd (checkDoc sampleEnv ''/proj'' ''my-crate''
             (sampleWorld\<lparr>cache := [''/proj:my-crate'' \<mapsto> sampleEntry]\<rparr>)))
        = [FsAccess ''/proj/Cargo.toml'']
   \<and> cache sampleWorld (getCacheKey ''/proj'' ''my-crate'') = None
   \<and> cargo_metadata sampleEnv ''/proj'' = Some ''/t''
   \<and> writes sampleWorld 0
   \<and> fst (checkDoc sampleEnv ''/proj'' ''my-crate'' sampleWorld) = Inr True
   \<and> cache (snd (checkDoc sampleEnv ''/proj'' ''my-crate'' sampleWorld)) ''/proj:my-crate''
        = Some \<lparr>crateName = ''my-crate'', projectPath = ''/proj'',
                 docPath = ''/t/doc/my-crate/index.html'', lastBuildTime = 1001,
                 isBuilt = True\<rparr>
   \<and> trace (snd (checkDoc sampleEnv ''/proj'' ''my-crate'' sampleWorld))
        = [FsAccess ''/proj/Cargo.toml'', CargoMetadata ''/proj'',
           FsAccess ''/t/doc/my-crate/index.html'', FsWriteFile]"
  using checkDoc_status_caching
      [of sampleEnv "''/proj''" "sampleWorld\<lparr>cache := [''/proj:my-crate'' \<mapsto> sampleEntry]\<rparr>"
          "''my-crate''" sampleEntry "''/t''"]
    checkDoc_status_caching
      [of sampleEnv "''/proj''" sampleWorld "''my-crate''" sampleEntry "''/t''"]
  by (simp add: sampleEnv_def sampleWorld_def sampleEntry_def getCacheKey_def CACHE_TTL_def
      entryPoint_def statusEntry_def)

text \<open>
  Without those conditions the calls end otherwise. With an unexpired entry in the store
  and no manifest, \<open>checkDoc\<close> throws \<open>INVALID_PATH\<close>. On a miss with a failing metadata
  query it throws \<open>CARGO_ERROR\<close> and stores nothing. On a miss where the entry point
  exists and only the first write of the cache file fails, the \<open>catch\<close> meant for
  \<open>fs.access\<close> takes the error of \<open>set\<close>: \<open>checkDoc\<close> stores \<open>isBuilt = false\<close> and
  returns false.
\<close>

theorem checkDoc_status_counterexample:
  "cache (sampleWorld\<lparr>cache := [''/proj:my-crate'' \<mapsto> sampleEntry]\<rparr>)
        (getCacheKey ''/proj'' ''my-crate'') = Some sampleEntry
   \<and> clock (sampleWorld\<lparr>cache := [''/proj:my-crate'' \<mapsto> sampleEntry]\<rparr>) 0
        - lastBuildTime sampleEntry \<le> CACHE_TTL
   \<and> fst (checkDoc (sampleEnv\<lparr>fs_access := (\<lambda>p. False)\<rparr>) ''/proj'' ''my-crate''
            (sampleWorld\<lparr>cache := [''/proj:my-crate'' \<mapsto> sampleEntry]\<rparr>))
       = Inl (DocError INVALID_PATH ''Invalid project path: /proj. Cargo.toml not found.'' None)
   \<and> cache sampleWorld (getCacheKey ''/proj'' ''my-crate'') = None
   \<and> fst (checkDoc (sampleEnv\<lparr>cargo_metadata := (\<lambda>cwd. None)\<rparr>) ''/proj'' ''my-crate''
            sampleWorld)
       = Inl (DocError CARGO_ERROR ''Failed to check documentation status''
                (Some (DocError CARGO_ERROR ''Failed to get target directory''
                         (Some RuntimeError))))
   \<and> cache (snd (checkDoc (sampleEnv\<lparr>cargo_metadata := (\<lambda>cwd. None)\<rparr>) ''/proj'' ''my-crate''
            sampleWorld)) = Map.empty
   \<and> cache flakyWorld (getCacheKey ''/proj'' ''my-crate'') = None
   \<and> fs_access sampleEnv ''/t/doc/my-crate/index.html''
   \<and> fst (checkDoc sampleEnv ''/proj'' ''my-crate'' flakyWorld) = Inr False
   \<and> cache (snd (checkDoc sampleEnv ''/proj'' ''my-crate'' flakyWorld)) ''/proj:my-crate''
       = Some \<lparr>crateName = ''my-crate'', projectPath = ''/proj'',
                docPath = ''/t/doc/my-crate/index.html'', lastBuildTime = 1003,
                isBuilt = False\<rparr>
   \<and> trace (snd (checkDoc sampleEnv ''/proj'' ''my-crate'' flakyWorld))
       = [FsAccess ''/proj/Cargo.toml'', CargoMetadata ''/proj'',
          FsAccess ''/t/doc/my-crate/index.html'', FsWriteFile, FsWriteFile]"
  by (simp add: checkDoc_defs sample_defs flakyWorld_def getCacheKey_def CACHE_TTL_def)

subsection \<open>checkDoc does not read the documentation tree\<close>

lemma traversal_save: "save w = (r, w') \<Longrightarrow> traversalEvents w' = traversalEvents w"
  by (auto simp: save_def emit_def traversalEvents_def Let_def split: if_splits)

lemma traversal_date_now: "date_now w = (t, w') \<Longrightarrow> traversalEvents w' = traversalEvents w"
  by (auto simp: date_now_def traversalEvents_def)

lemma traversal_get: "get pp cn w = (r, w') \<Longrightarrow> traversalEvents w' = traversalEvents w"
  by (auto simp: get_def Let_def traversalEvents_def date_now_def save_def emit_def split: option.splits if_splits prod.splits sum.splits)

lemma traversal_set_entry: "set_entry e w = (r, w') \<Longrightarrow> traversalEvents w' = traversalEvents w"
  by (auto simp: set_entry_def Let_def traversalEvents_def date_now_def save_def emit_def split: option.splits if_splits prod.splits sum.splits)

lemma traversal_verifyProjectPath: "verifyProjectPath env pp w = (r, w') \<Longrightarrow> traversalEvents w' = traversalEvents w"
  by (auto simp: verifyProjectPath_def Let_def traversalEvents_def emit_def split: if_splits)

lemma traversal_getTargetDir: "getTargetDir env pp w = (r, w') \<Longrightarrow> traversalEvents w' = traversalEvents w"
  by (auto simp: getTargetDir_def Let_def traversalEvents_def emit_def split: option.splits)

lemma traversal_emit_access: "traversalEvents (emit (FsAccess p) w) = traversalEvents w"
  by (simp add: traversalEvents_def emit_def)

lemma traversal_checkDoc_access: "checkDoc_access env pp cn dp w = (r, w') \<Longrightarrow> traversalEvents w' = traversalEvents w"
  unfolding checkDoc_access_def Let_def
  by (auto split: if_splits prod.splits sum.splits
      dest!: traversal_set_entry traversal_date_now simp: traversal_emit_access)

lemma traversal_checkDoc_miss: "checkDoc_miss env pp cn w = (r, w') \<Longrightarrow> traversalEvents w' = traversalEvents w"
  unfolding checkDoc_miss_def
  by (auto split: prod.splits sum.splits dest!: traversal_getTargetDir traversal_checkDoc_access)

lemma traversal_checkDoc: "checkDoc env pp cn w = (r, w') \<Longrightarrow> traversalEvents w' = traversalEvents w"
  unfolding checkDoc_def
  by (auto split: prod.splits sum.splits option.splits
      dest!: traversal_verifyProjectPath traversal_get traversal_checkDoc_miss)

section \<open>Properties of parseSymbolFromFile\<close>

lemma matchSymbolFile_sound:
  "matchSymbolFile kws f = Some (ty, nm) \<Longrightarrow>
     \<exists>kw. (kw, ty) \<in> set kws \<and> f = kw @ ''.'' @ nm @ ''.html'' \<and> nm \<noteq> []
          \<and> (\<forall>c \<in> set nm. \<not> lineTerminator c)"
proof (induction kws)
  case Nil
  then show ?case by simp
next
  case (Cons p kws)
  obtain kw t where p: "p = (kw, t)" by (cases p)
  let ?pre = "kw @ ''.''"
  let ?rest = "drop (length ?pre) f"
  let ?nm = "take (length ?rest - 5) ?rest"
  show ?case
  proof (cases "take (length ?pre) f = ?pre \<and> endsWith ?rest ''.html'' \<and> ?nm \<noteq> []
                \<and> (\<forall>c \<in> set ?nm. \<not> lineTerminator c)")
    case True
    from Cons.prems p
    have "(if take (length ?pre) f = ?pre \<and> endsWith ?rest ''.html'' \<and> ?nm \<noteq> []
                \<and> (\<forall>c \<in> set ?nm. \<not> lineTerminator c)
           then Some (t, ?nm) else matchSymbolFile kws f) = Some (ty, nm)"
      by (simp only: matchSymbolFile.simps Let_def)
    then have "Some (t, ?nm) = Some (ty, nm)" unfolding if_P [OF True] .
    then have eq: "t = ty" "?nm = nm" by blast+
    from True have "length ''.html'' \<le> length ?rest"
      and "drop (length ?rest - length ''.html'') ?rest = ''.html''"
      unfolding endsWith_def by blast+
    then have "drop (length ?rest - 5) ?rest = ''.html''" by simp
    then have "?rest = ?nm @ ''.html''"
      by (metis append_take_drop_id)
    moreover have "f = take (length ?pre) f @ ?rest" by simp
    ultimately have "f = ?pre @ ?nm @ ''.html''" using True by metis
    then have "f = kw @ ''.'' @ nm @ ''.html''" using eq by simp
    moreover from True eq have "nm \<noteq> []" "\<forall>c \<in> set nm. \<not> lineTerminator c" by blast+
    ultimately show ?thesis using p eq by auto
  next
    case False
    from Cons.prems p
    have "(if take (length ?pre) f = ?pre \<and> endsWith ?rest ''.html'' \<and> ?nm \<noteq> []
                \<and> (\<forall>c \<in> set ?nm. \<not> lineTerminator c)
           then Some (t, ?nm) else matchSymbolFile kws f) = Some (ty, nm)"
      by (simp only: matchSymbolFile.simps Let_def)
    then have "matchSymbolFile kws f = Some (ty, nm)" unfolding if_not_P [OF False] .
    from Cons.IH [OF this] show ?thesis by auto
  qed
qed

lemma matchSymbolFile_hit:
  assumes "nm \<noteq> []" and "\<forall>c \<in> set nm. \<not> lineTerminator c"
  shows "matchSymbolFile ((kw, ty) # kws) (kw @ ''.'' @ nm @ ''.html'') = Some (ty, nm)"
  using assms by (simp add: Let_def endsWith_def)

lemma matchSymbolFile_complete:
  assumes "(kw, ty) \<in> set symbolKeywords" and "nm \<noteq> []" and "\<forall>c \<in> set nm. \<not> lineTerminator c"
  shows "matchSymbolFile symbolKeywords (kw @ ''.'' @ nm @ ''.html'') = Some (ty, nm)"
  using assms 
  apply (simp add: symbolKeywords_def)
  apply (elim disjE)
  apply (simp_all add: Let_def endsWith_def)
  done

section \<open>Properties of the traversal\<close>

lemma traverse_prune:
  "traverseEntries env docDir cn modulePath h (prune es) acc w
     = traverseEntries env docDir cn modulePath h es acc w"
proof (induction es arbitrary: acc w docDir modulePath rule: prune.induct)
  case 1
  show ?case by simp
next
  case (2 nm content es)
  then show ?case by (simp split: prod.splits sum.splits)
next
  case (3 nm sub es)
  show ?case
  proof (cases "nm = ''src'' \<or> nm = ''implementors''")
    case True
    with 3 show ?thesis by simp
  next
    case False
    show ?thesis
    proof (cases sub)
      case None
      with False show ?thesis by simp
    next
      case (Some entries)
      with False 3 show ?thesis by (simp split: prod.splits sum.splits)
    qed
  qed
qed

lemma traverseDirectory_prune:
  "traverseDirectory env docDir cn modulePath h
      (case sub of None \<Rightarrow> None | Some entries \<Rightarrow> Some (prune entries)) acc w
     = traverseDirectory env docDir cn modulePath h sub acc w"
  by (cases sub) (simp_all add: traverse_prune)

lemma pruned_fields:
  "fs_access (pruned env) = fs_access env"
  "cargo_metadata (pruned env) = cargo_metadata env"
  "cargo_doc (pruned env) = cargo_doc env"
  "path_join (pruned env) = path_join env"
  "path_dirname (pruned env) = path_dirname env"
  "path_basename (pruned env) = path_basename env"
  "toLowerCase (pruned env) = toLowerCase env"
  "localeCompare (pruned env) = localeCompare env"
  "fs_readdir (pruned env) d =
     (case fs_readdir env d of None \<Rightarrow> None | Some entries \<Rightarrow> Some (prune entries))"
  by (simp_all add: pruned_def)

lemma checkDoc_pruned: "checkDoc (pruned env) = checkDoc env"
  unfolding checkDoc_def verifyProjectPath_def checkDoc_miss_def getTargetDir_def
    checkDoc_access_def pruned_fields ..

lemma searchHandler_pruned: "searchHandler (pruned env) = searchHandler env"
  unfolding searchHandler_def pruned_fields ..

lemma traverse_pruned_env:
  "traverseDirectory (pruned env) docDir cn modulePath h sub acc w
     = traverseDirectory env docDir cn modulePath h sub acc w"
  "traverseEntries (pruned env) docDir cn modulePath h es acc w
     = traverseEntries env docDir cn modulePath h es acc w"
proof (induction env docDir cn modulePath h sub acc w and env docDir cn modulePath h es acc w
    rule: traverseDirectory_traverseEntries.induct)
  case (1 env docDir cn modulePath h acc w)
  show ?case by simp
next
  case (2 env docDir cn modulePath h entries acc w)
  then show ?case by simp
next
  case (3 env docDir cn modulePath h acc w)
  show ?case by simp
next
  case (4 env docDir cn modulePath h nm sub es acc w)
  show ?case
  proof (cases "nm = ''src'' \<or> nm = ''implementors''")
    case True
    with 4 show ?thesis by simp
  next
    case False
    with 4 show ?thesis
      by (auto simp: pruned_fields split: prod.splits sum.splits)
  qed
next
  case (5 env docDir cn modulePath h nm content es acc w)
  then show ?case by (auto simp: pruned_fields split: prod.splits sum.splits)
qed

lemma searchDoc_pruned: "searchDoc (pruned env) pp cn q opts w = searchDoc env pp cn q opts w"
  unfolding searchDoc_def checkDoc_pruned searchHandler_pruned pruned_fields Let_def
    traverse_pruned_env traverseDirectory_prune ..

lemma listSymbols_pruned: "listSymbols (pruned env) pp cn w = listSymbols env pp cn w"
  unfolding listSymbols_def checkDoc_pruned pruned_fields Let_def
    traverse_pruned_env traverseDirectory_prune ..

section \<open>Properties of sorting\<close>

lemma length_insertBy [simp]: "length (insertBy cmp x xs) = Suc (length xs)"
  by (induction xs) auto

lemma length_jsSort [simp]: "length (jsSort cmp xs) = length xs"
  by (induction xs) (auto simp: jsSort_def)

lemma set_insertBy [simp]: "set (insertBy cmp x xs) = insert x (set xs)"
  by (induction xs) auto

lemma set_jsSort [simp]: "set (jsSort cmp xs) = set xs"
  by (induction xs) (auto simp: jsSort_def)

lemma sorted_insertBy:
  assumes "consistentComparator cmp" and "sorted_wrt (\<lambda>a b. cmp a b \<le> 0) xs"
  shows "sorted_wrt (\<lambda>a b. cmp a b \<le> 0) (insertBy cmp x xs)"
  using assms(2)
proof (induction xs)
  case Nil
  show ?case by simp
next
  case (Cons y ys)
  from assms(1) have tot: "cmp a b \<le> 0 \<or> cmp b a \<le> 0" for a b
    unfolding consistentComparator_def by blast
  from assms(1) have trans: "cmp a b \<le> 0 \<Longrightarrow> cmp b c \<le> 0 \<Longrightarrow> cmp a c \<le> 0" for a b c
    unfolding consistentComparator_def by blast
  from Cons.prems have ys: "sorted_wrt (\<lambda>a b. cmp a b \<le> 0) ys"
    and y: "\<forall>z \<in> set ys. cmp y z \<le> 0" by simp_all
  show ?case
  proof (cases "cmp x y \<le> 0")
    case True
    have "\<forall>z \<in> set ys. cmp x z \<le> 0"
    proof
      fix z assume "z \<in> set ys"
      with y have "cmp y z \<le> 0" by blast
      with True show "cmp x z \<le> 0" by (rule trans)
    qed
    with True Cons.prems show ?thesis by simp
  next
    case False
    with tot [of x y] have "cmp y x \<le> 0" by blast
    moreover from Cons.IH [OF ys] have "sorted_wrt (\<lambda>a b. cmp a b \<le> 0) (insertBy cmp x ys)" .
    ultimately show ?thesis using False y by simp
  qed
qed

lemma sorted_jsSort:
  assumes "consistentComparator cmp"
  shows "sorted_wrt (\<lambda>a b. cmp a b \<le> 0) (jsSort cmp xs)"
proof (induction xs)
  case Nil
  show ?case by (simp add: jsSort_def)
next
  case (Cons x xs)
  have "jsSort cmp (x # xs) = insertBy cmp x (jsSort cmp xs)" by (simp add: jsSort_def)
  with sorted_insertBy [OF assms Cons] show ?case by simp
qed

lemma consistent_byTitle: "consistentComparator (localeCompare env) \<Longrightarrow> consistentComparator (byTitle env)"
  unfolding consistentComparator_def byTitle_def by blast

lemma consistent_byPath: "consistentComparator (localeCompare env) \<Longrightarrow> consistentComparator (byPath env)"
  unfolding consistentComparator_def byPath_def by blast

lemma compareStrings_total: "compareStrings a b \<le> 0 \<or> compareStrings b a \<le> 0"
  by (induction a b rule: compareStrings.induct) auto

lemma compareStrings_trans:
  "compareStrings a b \<le> 0 \<Longrightarrow> compareStrings b c \<le> 0 \<Longrightarrow> compareStrings a c \<le> 0"
proof (induction a b arbitrary: c rule: compareStrings.induct)
  case 1
  then show ?case by simp
next
  case (2 y ys)
  then show ?case by (cases c) simp_all
next
  case (3 x xs)
  then show ?case by simp
next
  case (4 x xs y ys)
  show ?case
  proof (cases c)
    case Nil
    with "4.prems" show ?thesis by simp
  next
    case (Cons z zs)
    define i j k where "i = (of_char x :: nat)" and "j = (of_char y :: nat)"
      and "k = (of_char z :: nat)"
    have xy: "compareStrings (x # xs) (y # ys)
                = (if i < j then - 1 else if j < i then 1 else compareStrings xs ys)"
      by (simp add: i_def j_def)
    have yz: "compareStrings (y # ys) (z # zs)
                = (if j < k then - 1 else if k < j then 1 else compareStrings ys zs)"
      by (simp add: j_def k_def)
    have xz: "compareStrings (x # xs) (z # zs)
                = (if i < k then - 1 else if k < i then 1 else compareStrings xs zs)"
      by (simp add: i_def k_def)
    from "4.prems"(1) have ij: "i \<le> j" unfolding xy by (simp split: if_splits)
    from "4.prems"(2) have jk: "j \<le> k" unfolding Cons yz by (simp split: if_splits)
    show ?thesis
    proof (cases "i < k")
      case True
      then show ?thesis unfolding Cons xz by simp
    next
      case False
      with ij jk have eq: "i = j" "j = k" by simp_all
      from "4.prems"(1) eq have a: "compareStrings xs ys \<le> 0" unfolding xy by simp
      from "4.prems"(2) eq have b: "compareStrings ys zs \<le> 0" unfolding Cons yz by simp
      from eq have "\<not> of_char x < (of_char y :: nat)" "\<not> of_char y < (of_char x :: nat)"
        by (simp_all add: i_def j_def)
      from "4.IH" [OF this a b] have "compareStrings xs zs \<le> 0" .
      with eq show ?thesis unfolding Cons xz by simp
    qed
  qed
qed

lemma consistent_compareStrings: "consistentComparator compareStrings"
  unfolding consistentComparator_def using compareStrings_total compareStrings_trans by blast

section \<open>Properties of searchDoc and listSymbols\<close>

lemma collected_append:
  "collected opts (collected opts acc xs) ys = collected opts acc (xs @ ys)"
  by (auto simp: collected_def min_def split: option.splits)

lemma collected_empty [simp]: "collected opts acc [] = acc"
  by (simp add: collected_def split: option.splits)

lemma limitReached_bound:
  "limitReached opts acc \<Longrightarrow> \<exists>k. resultBound opts = Some k \<and> k \<le> length acc"
proof -
  assume r: "limitReached opts acc"
  show ?thesis
  proof (cases "limit opts")
    case None
    with r show ?thesis by (simp add: limitReached_def)
  next
    case (Some n)
    show ?thesis
    proof (cases n)
      case (Number l)
      with r Some have l: "l \<noteq> 0" "l \<le> of_nat (length acc)" by (simp_all add: limitReached_def)
      then have "\<lceil>l\<rceil> \<le> int (length acc)" by (simp add: ceiling_le_iff)
      then have "nat \<lceil>l\<rceil> \<le> length acc" by simp
      with l Some Number show ?thesis by (simp add: resultBound_def)
    qed (use r Some in \<open>simp_all add: limitReached_def resultBound_def\<close>)
  qed
qed

lemma not_limitReached_bound:
  "\<not> limitReached opts acc \<Longrightarrow>
     resultBound opts = None \<or> (\<exists>k. resultBound opts = Some k \<and> length acc < k)"
proof -
  assume r: "\<not> limitReached opts acc"
  show ?thesis
  proof (cases "limit opts")
    case None
    then show ?thesis by (simp add: resultBound_def)
  next
    case (Some n)
    show ?thesis
    proof (cases n)
      case (Number l)
      show ?thesis
      proof (cases "l = 0")
        case True
        with Some Number show ?thesis by (simp add: resultBound_def)
      next
        case False
        with r Some Number have "of_nat (length acc) < l" by (simp add: limitReached_def)
        then have "int (length acc) < \<lceil>l\<rceil>" by (simp add: less_ceiling_iff)
        then have "length acc < nat \<lceil>l\<rceil>" by simp
        with False Some Number show ?thesis by (simp add: resultBound_def)
      qed
    qed (use r Some in \<open>simp_all add: limitReached_def resultBound_def\<close>)
  qed
qed

lemma searchHandler_collected:
  assumes "searchHandler env cn q opts fileName filePath modulePath content acc w = (Inr acc', w')"
  shows "acc' = collected opts acc
           (map (resultFor env cn)
              (filter (queryMatches env q) [(fileName, filePath, modulePath, content)]))"
proof (cases "limitReached opts acc")
  case True
  with assms have "acc' = acc" by (simp add: searchHandler_def)
  moreover from True obtain k where "resultBound opts = Some k" "k - length acc = 0"
    using limitReached_bound by fastforce
  ultimately show ?thesis by (simp add: collected_def)
next
  case False
  then have b: "resultBound opts = None \<or> (\<exists>k. resultBound opts = Some k \<and> length acc < k)"
    by (rule not_limitReached_bound)
  from False assms obtain body where c: "content = Some body"
    by (cases content) (auto simp: searchHandler_def Let_def)
  show ?thesis
  proof (cases "includesStr (toLowerCase env body) (toLowerCase env q)")
    case True
    with False assms c
    have "acc' = acc @ [resultFor env cn (fileName, filePath, modulePath, content)]"
      by (auto simp: searchHandler_def Let_def resultFor_def)
    with True c b show ?thesis
      by (auto simp: collected_def queryMatches_def take_Cons')
  next
    case no: False
    with False assms c have "acc' = acc" by (auto simp: searchHandler_def Let_def)
    with no c show ?thesis by (simp add: queryMatches_def)
  qed
qed

lemma traverse_search:
  "h = searchHandler env cn q opts \<Longrightarrow>
     traverseDirectory env docDir cn modulePath h sub acc w = (Inr acc', w') \<Longrightarrow>
     \<exists>es. sub = Some es \<and> acc' = collected opts acc (matchesIn env cn q docDir modulePath es)"
  "h = searchHandler env cn q opts \<Longrightarrow>
     traverseEntries env docDir cn modulePath h es acc w = (Inr acc', w') \<Longrightarrow>
     acc' = collected opts acc (matchesIn env cn q docDir modulePath es)"
proof (induction env docDir cn modulePath h sub acc w and env docDir cn modulePath h es acc w
    arbitrary: acc' w' and acc' w' rule: traverseDirectory_traverseEntries.induct)
  case (1 env docDir cn modulePath h acc w)
  then show ?case by simp
next
  case (2 env docDir cn modulePath h entries acc w)
  then show ?case by simp
next
  case (3 env docDir cn modulePath h acc w)
  then show ?case by (simp add: matchesIn_def)
next
  case (4 env docDir cn modulePath h nm sub es acc w)
  show ?case
  proof (cases "nm = ''src'' \<or> nm = ''implementors''")
    case True
    with 4 show ?thesis by (simp add: matchesIn_def)
  next
    case False
    with "4.prems" obtain acc1 w1 where
      a: "traverseDirectory env (path_join env [docDir, nm]) cn (nextModulePath modulePath nm)
            h sub acc w = (Inr acc1, w1)"
      and b: "traverseEntries env docDir cn modulePath h es acc1 w1 = (Inr acc', w')"
      by (auto split: prod.splits sum.splits)
    from "4.IH"(2) [OF False "4.prems"(1) a] obtain entries where
      s: "sub = Some entries"
      and c: "acc1 = collected opts acc
                (matchesIn env cn q (path_join env [docDir, nm]) (nextModulePath modulePath nm)
                   entries)"
      by blast
    from "4.IH"(3) [OF False a [symmetric] refl "4.prems"(1) b]
    have "acc' = collected opts acc1 (matchesIn env cn q docDir modulePath es)" .
    with c s False show ?thesis
      by (simp add: collected_append matchesIn_def)
  qed
next
  case (5 env docDir cn modulePath h nm content es acc w)
  show ?case
  proof (cases "endsWith nm ''.html'' \<and> nm \<noteq> ''index.html''")
    case True
    with "5.prems" obtain acc1 w1 where
      a: "h nm (path_join env [docDir, nm]) modulePath content acc w = (Inr acc1, w1)"
      and b: "traverseEntries env docDir cn modulePath h es acc1 w1 = (Inr acc', w')"
      by (auto split: prod.splits sum.splits)
    from a "5.prems"(1)
    have c: "acc1 = collected opts acc
               (map (resultFor env cn) (filter (queryMatches env q)
                  [(nm, path_join env [docDir, nm], modulePath, content)]))"
      using searchHandler_collected by blast
    from "5.IH"(1) [OF True a [symmetric] refl "5.prems"(1) b]
    have "acc' = collected opts acc1 (matchesIn env cn q docDir modulePath es)" .
    with c True show ?thesis
      by (simp add: collected_append matchesIn_def)
  next
    case False
    with 5 show ?thesis by (auto simp: matchesIn_def)
  qed
qed

lemma get_Some: "get pp cn w = (Inr (Some e), w') \<Longrightarrow> cache w (getCacheKey pp cn) = Some e"
  by (auto simp: get_def Let_def date_now_def split: option.splits if_splits prod.splits sum.splits)

lemma searchDoc_results:
  assumes "fst (searchDoc env pp cn q opts w) = Inr rs"
  shows "\<exists>e es. fst (checkDoc env pp cn w) = Inr True
           \<and> cache (snd (checkDoc env pp cn w)) (getCacheKey pp cn) = Some e
           \<and> fs_readdir env (path_dirname env (docPath e)) = Some es
           \<and> rs = jsSort (byTitle env)
                    (collected opts [] (allMatches env cn q (path_dirname env (docPath e)) es))"
proof -
  obtain r1 w1 where c: "checkDoc env pp cn w = (r1, w1)" by (cases "checkDoc env pp cn w")
  with assms have r1: "r1 = Inr True"
    by (cases r1) (auto simp: searchDoc_def split: if_splits)
  obtain r2 w2 where g: "get pp cn w1 = (r2, w2)" by (cases "get pp cn w1")
  with assms c r1 obtain e where r2: "r2 = Inr (Some e)"
    by (cases r2) (auto simp: searchDoc_def split: option.splits)
  let ?d = "path_dirname env (docPath e)"
  obtain r3 w3 where t: "traverseDirectory env ?d cn [] (searchHandler env cn q opts)
       (fs_readdir env ?d) [] w2 = (r3, w3)"
    by (cases "traverseDirectory env ?d cn [] (searchHandler env cn q opts)
       (fs_readdir env ?d) [] w2")
  with assms c r1 g r2 obtain acc where r3: "r3 = Inr acc"
    and rs: "rs = jsSort (\<lambda>a b. localeCompare env (title a) (title b)) acc"
    by (cases r3) (auto simp: searchDoc_def Let_def)
  from traverse_search(1) [OF refl t [unfolded r3]] obtain es where
    "fs_readdir env ?d = Some es" "acc = collected opts [] (matchesIn env cn q ?d [] es)"
    by blast
  moreover have "byTitle env = (\<lambda>a b. localeCompare env (title a) (title b))"
    by (intro ext) (simp add: byTitle_def)
  moreover from g r2 have "cache w1 (getCacheKey pp cn) = Some e" by (simp add: get_Some)
  ultimately show ?thesis using c r1 rs by (auto simp: matchesIn_def allMatches_def)
qed

section \<open>The claims about searchDoc and listSymbols\<close>

text \<open>
  Claim C2 (precondition of search and listing). When \<open>checkDoc\<close> returns false,
  \<open>searchDoc\<close> and \<open>listSymbols\<close> throw \<open>SEARCH_FAILED\<close> in the state that \<open>checkDoc\<close>
  leaves, and no directory listing and no file read of the documentation tree has been
  added to the effects.
\<close>

theorem not_built_fails_without_traversal:
  assumes "fst (checkDoc env pp cn w) = Inr False"
  shows "searchDoc env pp cn query options w =
           (Inl (DocError SEARCH_FAILED
                   ''Documentation not built. Please build the documentation first.'' None),
            snd (checkDoc env pp cn w))
       \<and> listSymbols env pp cn w =
           (Inl (DocError SEARCH_FAILED
                   ''Documentation not built. Please build the documentation first.'' None),
            snd (checkDoc env pp cn w))
       \<and> traversalEvents (snd (checkDoc env pp cn w)) = traversalEvents w"
proof -
  obtain r w1 where c: "checkDoc env pp cn w = (r, w1)" by (cases "checkDoc env pp cn w")
  with assms have r: "r = Inr False" by simp
  from c have "traversalEvents w1 = traversalEvents w" by (rule traversal_checkDoc)
  with c r show ?thesis by (simp add: searchDoc_def listSymbols_def)
qed

theorem not_built_fails_without_traversal_witness:
  "fst (checkDoc (sampleEnv\<lparr>fs_access := (\<lambda>p. p = ''/proj/Cargo.toml'')\<rparr>) ''/proj'' ''my-crate''
          sampleWorld) = Inr False
   \<and> fst (searchDoc (sampleEnv\<lparr>fs_access := (\<lambda>p. p = ''/proj/Cargo.toml'')\<rparr>) ''/proj''
             ''my-crate'' ''widget'' \<lparr>limit = None\<rparr> sampleWorld)
       = Inl (DocError SEARCH_FAILED
                ''Documentation not built. Please build the documentation first.'' None)
   \<and> fst (listSymbols (sampleEnv\<lparr>fs_access := (\<lambda>p. p = ''/proj/Cargo.toml'')\<rparr>) ''/proj''
             ''my-crate'' sampleWorld)
       = Inl (DocError SEARCH_FAILED
                ''Documentation not built. Please build the documentation first.'' None)
   \<and> trace (snd (searchDoc (sampleEnv\<lparr>fs_access := (\<lambda>p. p = ''/proj/Cargo.toml'')\<rparr>) ''/proj''
             ''my-crate'' ''widget'' \<lparr>limit = None\<rparr> sampleWorld))
       = [FsAccess ''/proj/Cargo.toml'', CargoMetadata ''/proj'',
          FsAccess ''/t/doc/my-crate/index.html'', FsWriteFile]"
proof -
  have c: "checkDoc (sampleEnv\<lparr>fs_access := (\<lambda>p. p = ''/proj/Cargo.toml'')\<rparr>) ''/proj''
             ''my-crate'' sampleWorld
           = (Inr False,
              sampleWorld\<lparr>cache := [''/proj:my-crate'' \<mapsto>
                   \<lparr>crateName = ''my-crate'', projectPath = ''/proj'',
                    docPath = ''/t/doc/my-crate/index.html'', lastBuildTime = 1001,
                    isBuilt = False\<rparr>],
                 disk := [''/proj:my-crate'' \<mapsto>
                   \<lparr>crateName = ''my-crate'', projectPath = ''/proj'',
                    docPath = ''/t/doc/my-crate/index.html'', lastBuildTime = 1001,
                    isBuilt = False\<rparr>],
                 clock := (\<lambda>n. 1000 + int (Suc (Suc n))),
                 writes := (\<lambda>n. True),
                 trace := [FsAccess ''/proj/Cargo.toml'', CargoMetadata ''/proj'',
                    FsAccess ''/t/doc/my-crate/index.html'', FsWriteFile]\<rparr>)"
    by (simp add: checkDoc_defs sample_defs getCacheKey_def)
  then have h: "fst (checkDoc (sampleEnv\<lparr>fs_access := (\<lambda>p. p = ''/proj/Cargo.toml'')\<rparr>) ''/proj''
             ''my-crate'' sampleWorld) = Inr False" by simp
  from not_built_fails_without_traversal [OF h, of "''widget''" "\<lparr>limit = None\<rparr>"] c h
  show ?thesis by simp
qed

section \<open>The claim about parseSymbolFromFile\<close>

lemma replaceHyphens_no_hyphen: "CHR ''-'' \<notin> set (replaceHyphens s)"
  by (induction s) (auto simp: replaceHyphens_def)

text \<open>
  Claim C5 (symbol parsing). A file name \<open>kw.name.html\<close>, with \<open>kw\<close> one of the eight
  keywords and \<open>name\<close> non-empty and free of line terminators (what \<open>(.+)\<close> matches),
  yields the symbol of that kind whose name is \<open>name\<close> with every hyphen replaced by
  \<open>::\<close> and whose path is the crate name, the module path if it is not empty, and the
  name, joined by \<open>::\<close>. \<open>struct.Foo-Bar.html\<close> at the crate root yields kind struct,
  name \<open>Foo::Bar\<close>, path \<open>my-crate::Foo::Bar\<close>. A file name of no such form yields no
  symbol (and nothing is thrown: the function returns an option).
\<close>

theorem parseSymbolFromFile_by_name:
  "((kw, ty) \<in> set symbolKeywords \<longrightarrow> nm \<noteq> [] \<longrightarrow> (\<forall>c \<in> set nm. \<not> lineTerminator c) \<longrightarrow>
      parseSymbolFromFile (kw @ ''.'' @ nm @ ''.html'') modulePath cn filePath =
        Some \<lparr>name = replaceHyphens nm, type = ty,
              path = (if modulePath = [] then cn @ ''::'' @ replaceHyphens nm
                      else cn @ ''::'' @ modulePath @ ''::'' @ replaceHyphens nm),
              url = ''rustdoc://'' @ filePath\<rparr>)
   \<and> CHR ''-'' \<notin> set (replaceHyphens nm)
   \<and> replaceHyphens (a @ ''-'' @ b) = replaceHyphens a @ ''::'' @ replaceHyphens b
   \<and> (CHR ''-'' \<notin> set a \<longrightarrow> replaceHyphens a = a)
   \<and> map fst symbolKeywords
        = [''struct'', ''enum'', ''trait'', ''fn'', ''const'', ''type'', ''macro'', ''mod'']
   \<and> parseSymbolFromFile ''struct.Foo-Bar.html'' [] ''my-crate'' filePath =
        Some \<lparr>name = ''Foo::Bar'', type = STRUCT, path = ''my-crate::Foo::Bar'',
              url = ''rustdoc://'' @ filePath\<rparr>
   \<and> ((\<forall>k t n. (k, t) \<in> set symbolKeywords \<and> n \<noteq> [] \<and> (\<forall>c \<in> set n. \<not> lineTerminator c)
                 \<longrightarrow> fileName \<noteq> k @ ''.'' @ n @ ''.html'') \<longrightarrow>
        parseSymbolFromFile fileName modulePath cn filePath = None)"
proof (intro conjI impI)
  assume "(kw, ty) \<in> set symbolKeywords" "nm \<noteq> []" "\<forall>c \<in> set nm. \<not> lineTerminator c"
  then have "matchSymbolFile symbolKeywords (kw @ ''.'' @ nm @ ''.html'') = Some (ty, nm)"
    by (rule matchSymbolFile_complete)
  then show "parseSymbolFromFile (kw @ ''.'' @ nm @ ''.html'') modulePath cn filePath =
        Some \<lparr>name = replaceHyphens nm, type = ty,
              path = (if modulePath = [] then cn @ ''::'' @ replaceHyphens nm
                      else cn @ ''::'' @ modulePath @ ''::'' @ replaceHyphens nm),
              url = ''rustdoc://'' @ filePath\<rparr>"
    by (simp add: parseSymbolFromFile_def create_def Let_def)
next
  show "CHR ''-'' \<notin> set (replaceHyphens nm)" by (rule replaceHyphens_no_hyphen)
next
  show "replaceHyphens (a @ ''-'' @ b) = replaceHyphens a @ ''::'' @ replaceHyphens b"
    by (simp add: replaceHyphens_def)
next
  assume "CHR ''-'' \<notin> set a"
  then show "replaceHyphens a = a" by (induction a) (auto simp: replaceHyphens_def)
next
  show "map fst symbolKeywords
        = [''struct'', ''enum'', ''trait'', ''fn'', ''const'', ''type'', ''macro'', ''mod'']"
    by (simp add: symbolKeywords_def)
next
  show "parseSymbolFromFile ''struct.Foo-Bar.html'' [] ''my-crate'' filePath =
        Some \<lparr>name = ''Foo::Bar'', type = STRUCT, path = ''my-crate::Foo::Bar'',
              url = ''rustdoc://'' @ filePath\<rparr>"
    by (simp add: parseSymbolFromFile_def symbolKeywords_def endsWith_def lineTerminator_def
        replaceHyphens_def create_def Let_def)
next
  assume none: "\<forall>k t n. (k, t) \<in> set symbolKeywords \<and> n \<noteq> [] \<and> (\<forall>c \<in> set n. \<not> lineTerminator c)
                 \<longrightarrow> fileName \<noteq> k @ ''.'' @ n @ ''.html''"
  have "matchSymbolFile symbolKeywords fileName = None"
  proof (cases "matchSymbolFile symbolKeywords fileName")
    case None
    then show ?thesis .
  next
    case (Some p)
    obtain t n where "p = (t, n)" by (cases p)
    with Some matchSymbolFile_sound [of symbolKeywords fileName t n] none show ?thesis by blast
  qed
  then show "parseSymbolFromFile fileName modulePath cn filePath = None"
    by (simp add: parseSymbolFromFile_def)
qed

theorem parseSymbolFromFile_by_name_witness:
  "(''fn'', FUNCTION) \<in> set symbolKeywords \<and> ''run-now'' \<noteq> []
   \<and> \<not> lineTerminator CHR ''r'' \<and> \<not> lineTerminator CHR ''-''
   \<and> parseSymbolFromFile ''fn.run-now.html'' ''util'' ''my-crate'' ''/d/util/fn.run-now.html'' =
        Some \<lparr>name = ''run::now'', type = FUNCTION, path = ''my-crate::util::run::now'',
              url = ''rustdoc:///d/util/fn.run-now.html''\<rparr>
   \<and> parseSymbolFromFile ''all.html'' ''util'' ''my-crate'' ''/d/util/all.html'' = None"
proof -
  have 1: "(''fn'', FUNCTION) \<in> set symbolKeywords" by (simp add: symbolKeywords_def)
  have 2: "''run-now'' \<noteq> []" by simp
  have 3: "\<forall>c \<in> set ''run-now''. \<not> lineTerminator c" by (simp add: lineTerminator_def)
  have 4: "\<forall>k t n. (k, t) \<in> set symbolKeywords \<and> n \<noteq> [] \<and> (\<forall>c \<in> set n. \<not> lineTerminator c)
                 \<longrightarrow> ''all.html'' \<noteq> k @ ''.'' @ n @ ''.html''"
    by (auto simp: symbolKeywords_def)
  from parseSymbolFromFile_by_name
         [of "''fn''" FUNCTION "''run-now''" "''util''" "''my-crate''" "''/d/util/fn.run-now.html''"]
       1 2 3
  have 5: "parseSymbolFromFile ''fn.run-now.html'' ''util'' ''my-crate''
             ''/d/util/fn.run-now.html'' =
        Some \<lparr>name = ''run::now'', type = FUNCTION, path = ''my-crate::util::run::now'',
              url = ''rustdoc:///d/util/fn.run-now.html''\<rparr>"
    by (simp add: replaceHyphens_def)
  from parseSymbolFromFile_by_name
         [of _ _ _ "''util''" "''my-crate''" "''/d/util/all.html''" _ _ "''all.html''"] 4
  have 6: "parseSymbolFromFile ''all.html'' ''util'' ''my-crate'' ''/d/util/all.html'' = None"
    by blast
  have 7: "\<not> lineTerminator CHR ''r''" "\<not> lineTerminator CHR ''-''"
    by (simp_all add: lineTerminator_def)
  from 1 2 5 6 7 show ?thesis by (intro conjI)
qed

section \<open>The sample project, evaluated\<close>

lemma sample_checkDoc:
  "checkDoc sampleEnv ''/proj'' ''my-crate'' sampleWorld =
     (Inr True,
      sampleWorld\<lparr>cache := [''/proj:my-crate'' \<mapsto>
           \<lparr>crateName = ''my-crate'', projectPath = ''/proj'',
            docPath = ''/t/doc/my-crate/index.html'', lastBuildTime = 1001, isBuilt = True\<rparr>],
         disk := [''/proj:my-crate'' \<mapsto>
           \<lparr>crateName = ''my-crate'', projectPath = ''/proj'',
            docPath = ''/t/doc/my-crate/index.html'', lastBuildTime = 1001, isBuilt = True\<rparr>],
         clock := (\<lambda>n. 1000 + int (Suc (Suc n))),
         writes := (\<lambda>n. True),
         trace := [FsAccess ''/proj/Cargo.toml'', CargoMetadata ''/proj'',
            FsAccess ''/t/doc/my-crate/index.html'', FsWriteFile]\<rparr>)"
  by (simp add: checkDoc_defs sample_defs getCacheKey_def)

lemma sample_listSymbols:
  "fst (listSymbols sampleEnv ''/proj'' ''my-crate'' sampleWorld) =
     Inr [\<lparr>name = ''Foo::Bar'', type = STRUCT, path = ''my-crate::Foo::Bar'',
           url = ''rustdoc:///t/doc/my-crate/struct.Foo-Bar.html''\<rparr>,
          \<lparr>name = ''Mode'', type = ENUM, path = ''my-crate::util::Mode'',
           url = ''rustdoc:///t/doc/my-crate/util/enum.Mode.html''\<rparr>,
          \<lparr>name = ''run'', type = FUNCTION, path = ''my-crate::util::run'',
           url = ''rustdoc:///t/doc/my-crate/util/fn.run.html''\<rparr>]"
  unfolding listSymbols_def sample_checkDoc
  by (simp add: sample_defs get_def getCacheKey_def date_now_def CACHE_TTL_def Let_def
      emit_def symbolHandler_def parseSymbolFromFile_def symbolKeywords_def lineTerminator_def
      replaceHyphens_def create_def endsWith_def jsSort_def nextModulePath_def)

lemmas search_eval = sample_defs get_def getCacheKey_def date_now_def CACHE_TTL_def Let_def
  emit_def searchHandler_def limitReached_def parseSymbolFromFile_def symbolKeywords_def
  lineTerminator_def replaceHyphens_def create_def endsWith_def jsSort_def nextModulePath_def

lemma sample_search_unlimited:
  "fst (searchDoc sampleEnv ''/proj'' ''my-crate'' ''Widget'' \<lparr>limit = None\<rparr> sampleWorld) =
     Inr [\<lparr>title = ''all'', url = ''rustdoc:///t/doc/my-crate/all.html''\<rparr>,
          \<lparr>title = ''my-crate::Foo::Bar'',
           url = ''rustdoc:///t/doc/my-crate/struct.Foo-Bar.html''\<rparr>,
          \<lparr>title = ''my-crate::util::run'',
           url = ''rustdoc:///t/doc/my-crate/util/fn.run.html''\<rparr>]"
  unfolding searchDoc_def sample_checkDoc
  by (simp add: search_eval)

lemma sample_search_two:
  "fst (searchDoc sampleEnv ''/proj'' ''my-crate'' ''Widget'' \<lparr>limit = Some (Number 2)\<rparr> sampleWorld) =
     Inr [\<lparr>title = ''all'', url = ''rustdoc:///t/doc/my-crate/all.html''\<rparr>,
          \<lparr>title = ''my-crate::Foo::Bar'',
           url = ''rustdoc:///t/doc/my-crate/struct.Foo-Bar.html''\<rparr>]"
  unfolding searchDoc_def sample_checkDoc
  by (simp add: search_eval)

lemma sample_search_fraction:
  "fst (searchDoc sampleEnv ''/proj'' ''my-crate'' ''Widget'' \<lparr>limit = Some (Number (3 / 2))\<rparr>
          sampleWorld) =
     Inr [\<lparr>title = ''all'', url = ''rustdoc:///t/doc/my-crate/all.html''\<rparr>,
          \<lparr>title = ''my-crate::Foo::Bar'',
           url = ''rustdoc:///t/doc/my-crate/struct.Foo-Bar.html''\<rparr>]"
  unfolding searchDoc_def sample_checkDoc
  by (simp add: search_eval)

lemma sample_allMatches:
  "allMatches sampleEnv ''my-crate'' ''Widget'' ''/t/doc/my-crate'' sampleTree =
     [\<lparr>title = ''my-crate::Foo::Bar'',
       url = ''rustdoc:///t/doc/my-crate/struct.Foo-Bar.html''\<rparr>,
      \<lparr>title = ''all'', url = ''rustdoc:///t/doc/my-crate/all.html''\<rparr>,
      \<lparr>title = ''my-crate::util::run'',
       url = ''rustdoc:///t/doc/my-crate/util/fn.run.html''\<rparr>]"
  by (simp add: allMatches_def resultFor_def queryMatches_def search_eval)

section \<open>The claims about the traversal and the order of the results\<close>

text \<open>
  Claim C6 (directory exclusion). \<open>listSymbols\<close> and \<open>searchDoc\<close> return the same result,
  and perform the same effects, when every directory named \<open>src\<close> or \<open>implementors\<close> is
  removed from the tree at every level together with all it contains; so two file
  systems that differ only below such directories give the same symbols and the same
  search results, whatever the names and contents of the files there.
\<close>

theorem reserved_directories_ignored:
  "listSymbols (pruned env) pp cn w = listSymbols env pp cn w
   \<and> searchDoc (pruned env) pp cn query options w = searchDoc env pp cn query options w
   \<and> (pruned env' = pruned env \<longrightarrow>
        listSymbols env' pp cn w = listSymbols env pp cn w
      \<and> searchDoc env' pp cn query options w = searchDoc env pp cn query options w)"
proof (intro conjI impI)
  show "listSymbols (pruned env) pp cn w = listSymbols env pp cn w"
    by (rule listSymbols_pruned)
  show "searchDoc (pruned env) pp cn query options w = searchDoc env pp cn query options w"
    by (rule searchDoc_pruned)
next
  assume eq: "pruned env' = pruned env"
  show "listSymbols env' pp cn w = listSymbols env pp cn w"
    using listSymbols_pruned [of env' pp cn w] listSymbols_pruned [of env pp cn w] eq by simp
next
  assume eq: "pruned env' = pruned env"
  show "searchDoc env' pp cn query options w = searchDoc env pp cn query options w"
    using searchDoc_pruned [of env' pp cn query options w]
      searchDoc_pruned [of env pp cn query options w] eq by simp
qed

theorem reserved_directories_ignored_witness:
  "fs_readdir (pruned sampleEnv) ''/t/doc/my-crate'' =
     Some [FileEnt ''index.html'' (Some ''Crate widget''),
           FileEnt ''struct.Foo-Bar.html'' (Some ''A Widget factory''),
           FileEnt ''all.html'' (Some ''List of all items: widget''),
           DirEnt ''util'' (Some
             [FileEnt ''fn.run.html'' (Some ''Runs the WIDGET''),
              FileEnt ''enum.Mode.html'' (Some ''Modes'')]),
           FileEnt ''notes.txt'' (Some ''widget'')]
   \<and> fst (listSymbols (pruned sampleEnv) ''/proj'' ''my-crate'' sampleWorld) =
     Inr [\<lparr>name = ''Foo::Bar'', type = STRUCT, path = ''my-crate::Foo::Bar'',
           url = ''rustdoc:///t/doc/my-crate/struct.Foo-Bar.html''\<rparr>,
          \<lparr>name = ''Mode'', type = ENUM, path = ''my-crate::util::Mode'',
           url = ''rustdoc:///t/doc/my-crate/util/enum.Mode.html''\<rparr>,
          \<lparr>name = ''run'', type = FUNCTION, path = ''my-crate::util::run'',
           url = ''rustdoc:///t/doc/my-crate/util/fn.run.html''\<rparr>]
   \<and> fst (searchDoc (pruned sampleEnv) ''/proj'' ''my-crate'' ''Widget'' \<lparr>limit = None\<rparr>
            sampleWorld) =
     Inr [\<lparr>title = ''all'', url = ''rustdoc:///t/doc/my-crate/all.html''\<rparr>,
          \<lparr>title = ''my-crate::Foo::Bar'',
           url = ''rustdoc:///t/doc/my-crate/struct.Foo-Bar.html''\<rparr>,
          \<lparr>title = ''my-crate::util::run'',
           url = ''rustdoc:///t/doc/my-crate/util/fn.run.html''\<rparr>]"
proof -
  have "fs_readdir (pruned sampleEnv) ''/t/doc/my-crate'' =
     Some [FileEnt ''index.html'' (Some ''Crate widget''),
           FileEnt ''struct.Foo-Bar.html'' (Some ''A Widget factory''),
           FileEnt ''all.html'' (Some ''List of all items: widget''),
           DirEnt ''util'' (Some
             [FileEnt ''fn.run.html'' (Some ''Runs the WIDGET''),
              FileEnt ''enum.Mode.html'' (Some ''Modes'')]),
           FileEnt ''notes.txt'' (Some ''widget'')]"
    by (simp add: pruned_def sampleEnv_def sampleTree_def)
  moreover
  from reserved_directories_ignored
         [of sampleEnv "''/proj''" "''my-crate''" sampleWorld "''Widget''" "\<lparr>limit = None\<rparr>"
             sampleEnv]
  have "listSymbols (pruned sampleEnv) ''/proj'' ''my-crate'' sampleWorld
          = listSymbols sampleEnv ''/proj'' ''my-crate'' sampleWorld"
    and "searchDoc (pruned sampleEnv) ''/proj'' ''my-crate'' ''Widget'' \<lparr>limit = None\<rparr>
            sampleWorld
          = searchDoc sampleEnv ''/proj'' ''my-crate'' ''Widget'' \<lparr>limit = None\<rparr> sampleWorld"
    by blast+
  ultimately show ?thesis
    by (simp only: sample_listSymbols sample_search_unlimited simp_thms)
qed

lemma symbolsIn_simps:
  "symbolsIn env cn docDir modulePath [] = []"
  "symbolsIn env cn docDir modulePath (FileEnt nm content # es) =
     (if endsWith nm ''.html'' \<and> nm \<noteq> ''index.html''
      then (case parseSymbolFromFile nm modulePath cn (path_join env [docDir, nm]) of
              None \<Rightarrow> [] | Some symbol \<Rightarrow> [symbol])
      else [])
     @ symbolsIn env cn docDir modulePath es"
  "symbolsIn env cn docDir modulePath (DirEnt nm sub # es) =
     (if nm = ''src'' \<or> nm = ''implementors'' then []
      else (case sub of
              None \<Rightarrow> []
            | Some entries \<Rightarrow>
                symbolsIn env cn (path_join env [docDir, nm]) (nextModulePath modulePath nm)
                  entries))
     @ symbolsIn env cn docDir modulePath es"
  by (auto simp: symbolsIn_def map_filter_def split: option.splits)

lemma traverse_symbols:
  "h = symbolHandler cn \<Longrightarrow>
     traverseDirectory env docDir cn modulePath h sub acc w = (Inr acc', w') \<Longrightarrow>
     \<exists>es. sub = Some es \<and> acc' = acc @ symbolsIn env cn docDir modulePath es"
  "h = symbolHandler cn \<Longrightarrow>
     traverseEntries env docDir cn modulePath h es acc w = (Inr acc', w') \<Longrightarrow>
     acc' = acc @ symbolsIn env cn docDir modulePath es"
proof (induction env docDir cn modulePath h sub acc w and env docDir cn modulePath h es acc w
    arbitrary: acc' w' and acc' w' rule: traverseDirectory_traverseEntries.induct)
  case (1 env docDir cn modulePath h acc w)
  then show ?case by simp
next
  case (2 env docDir cn modulePath h entries acc w)
  then show ?case by simp
next
  case (3 env docDir cn modulePath h acc w)
  then show ?case by (simp add: symbolsIn_simps)
next
  case (4 env docDir cn modulePath h nm sub es acc w)
  show ?case
  proof (cases "nm = ''src'' \<or> nm = ''implementors''")
    case True
    with 4 show ?thesis by (simp add: symbolsIn_simps)
  next
    case False
    with "4.prems" obtain acc1 w1 where
      a: "traverseDirectory env (path_join env [docDir, nm]) cn (nextModulePath modulePath nm)
            h sub acc w = (Inr acc1, w1)"
      and b: "traverseEntries env docDir cn modulePath h es acc1 w1 = (Inr acc', w')"
      by (auto split: prod.splits sum.splits)
    from "4.IH"(2) [OF False "4.prems"(1) a] obtain entries where
      s: "sub = Some entries"
      and c: "acc1 = acc @ symbolsIn env cn (path_join env [docDir, nm])
                             (nextModulePath modulePath nm) entries"
      by blast
    from "4.IH"(3) [OF False a [symmetric] refl "4.prems"(1) b]
    have "acc' = acc1 @ symbolsIn env cn docDir modulePath es" .
    with c s False show ?thesis by (simp add: symbolsIn_simps)
  qed
next
  case (5 env docDir cn modulePath h nm content es acc w)
  show ?case
  proof (cases "endsWith nm ''.html'' \<and> nm \<noteq> ''index.html''")
    case True
    with "5.prems" obtain acc1 w1 where
      a: "h nm (path_join env [docDir, nm]) modulePath content acc w = (Inr acc1, w1)"
      and b: "traverseEntries env docDir cn modulePath h es acc1 w1 = (Inr acc', w')"
      by (auto split: prod.splits sum.splits)
    from a "5.prems"(1)
    have c: "acc1 = acc @ (case parseSymbolFromFile nm modulePath cn (path_join env [docDir, nm])
                            of None \<Rightarrow> [] | Some symbol \<Rightarrow> [symbol])"
      by (auto simp: symbolHandler_def split: option.splits)
    from "5.IH"(1) [OF True a [symmetric] refl "5.prems"(1) b]
    have "acc' = acc1 @ symbolsIn env cn docDir modulePath es" .
    with c True show ?thesis by (simp add: symbolsIn_simps)
  next
    case False
    with 5 show ?thesis by (auto simp: symbolsIn_simps)
  qed
qed

lemma listSymbols_results:
  assumes "fst (listSymbols env pp cn w) = Inr symbols"
  shows "\<exists>e es. fst (checkDoc env pp cn w) = Inr True
           \<and> cache (snd (checkDoc env pp cn w)) (getCacheKey pp cn) = Some e
           \<and> fs_readdir env (path_dirname env (docPath e)) = Some es
           \<and> symbols = jsSort (byPath env)
                         (symbolsIn env cn (path_dirname env (docPath e)) [] es)"
proof -
  obtain r1 w1 where c: "checkDoc env pp cn w = (r1, w1)" by (cases "checkDoc env pp cn w")
  with assms have r1: "r1 = Inr True"
    by (cases r1) (auto simp: listSymbols_def split: if_splits)
  obtain r2 w2 where g: "get pp cn w1 = (r2, w2)" by (cases "get pp cn w1")
  with assms c r1 obtain e where r2: "r2 = Inr (Some e)"
    by (cases r2) (auto simp: listSymbols_def split: option.splits)
  let ?d = "path_dirname env (docPath e)"
  obtain r3 w3 where t: "traverseDirectory env ?d cn [] (symbolHandler cn)
       (fs_readdir env ?d) [] w2 = (r3, w3)"
    by (cases "traverseDirectory env ?d cn [] (symbolHandler cn) (fs_readdir env ?d) [] w2")
  with assms c r1 g r2 obtain acc where r3: "r3 = Inr acc"
    and rs: "symbols = jsSort (\<lambda>a b. localeCompare env (path a) (path b)) acc"
    by (cases r3) (auto simp: listSymbols_def Let_def)
  from traverse_symbols(1) [OF refl t [unfolded r3]] obtain es where
    "fs_readdir env ?d = Some es" "acc = symbolsIn env cn ?d [] es"
    by auto
  moreover have "byPath env = (\<lambda>a b. localeCompare env (path a) (path b))"
    by (intro ext) (simp add: byPath_def)
  moreover from g r2 have "cache w1 (getCacheKey pp cn) = Some e" by (simp add: get_Some)
  ultimately show ?thesis using c r1 rs by auto
qed

lemma mset_insertBy [simp]: "mset (insertBy cmp x xs) = add_mset x (mset xs)"
  by (induction xs) auto

lemma mset_jsSort [simp]: "mset (jsSort cmp xs) = mset xs"
  by (induction xs) (auto simp: jsSort_def)

lemma filter_insertBy_other:
  "\<not> P x \<Longrightarrow> filter P (insertBy cmp x xs) = filter P xs"
  by (induction xs) auto

lemma filter_insertBy_first:
  assumes "P x" and "\<forall>y \<in> set xs. P y \<longrightarrow> cmp x y \<le> 0"
  shows "filter P (insertBy cmp x xs) = x # filter P xs"
  using assms(2)
proof (induction xs)
  case Nil
  with assms(1) show ?case by simp
next
  case (Cons y ys)
  show ?case
  proof (cases "cmp x y \<le> 0")
    case True
    with assms(1) show ?thesis by simp
  next
    case False
    with Cons.prems have "\<not> P y" by auto
    moreover from Cons have "filter P (insertBy cmp x ys) = x # filter P ys" by simp
    ultimately show ?thesis using False by simp
  qed
qed

lemma filter_jsSort_stable:
  assumes "\<forall>a b. P a \<and> P b \<longrightarrow> cmp a b \<le> 0"
  shows "filter P (jsSort cmp xs) = filter P xs"
proof (induction xs)
  case Nil
  show ?case by (simp add: jsSort_def)
next
  case (Cons x xs)
  have j: "jsSort cmp (x # xs) = insertBy cmp x (jsSort cmp xs)" by (simp add: jsSort_def)
  show ?case
  proof (cases "P x")
    case True
    with assms have "\<forall>y \<in> set (jsSort cmp xs). P y \<longrightarrow> cmp x y \<le> 0" by blast
    with True have "filter P (insertBy cmp x (jsSort cmp xs)) = x # filter P (jsSort cmp xs)"
      by (rule filter_insertBy_first [of P x "jsSort cmp xs" cmp])
    with Cons True show ?thesis unfolding j by simp
  next
    case False
    with Cons show ?thesis unfolding j by (simp add: filter_insertBy_other)
  qed
qed

lemma sorted_wrt_mset_unique:
  assumes "sorted_wrt R xs" and "sorted_wrt R ys" and "mset xs = mset ys"
    and "\<forall>a \<in> set xs. \<forall>b \<in> set xs. R a b \<and> R b a \<longrightarrow> a = b"
  shows "xs = ys"
  using assms
proof (induction xs arbitrary: ys)
  case Nil
  then show ?case by simp
next
  case (Cons x xs)
  from Cons.prems(3) obtain y ys' where ys: "ys = y # ys'" by (cases ys) auto
  have sets: "set (x # xs) = set (y # ys')"
    using Cons.prems(3) ys by (metis set_mset_mset)
  have "x = y"
  proof (rule ccontr)
    assume ne: "x \<noteq> y"
    with sets have "x \<in> set ys'" "y \<in> set xs" by auto
    with Cons.prems(1,2) ys have "R y x" "R x y" by auto
    moreover have "x \<in> set (x # xs)" "y \<in> set (x # xs)" using \<open>y \<in> set xs\<close> by auto
    ultimately have "x = y" using Cons.prems(4) by blast
    with ne show False ..
  qed
  with Cons.prems(3) ys have m: "mset xs = mset ys'" by simp
  from Cons.prems(1) have s1: "sorted_wrt R xs" by simp
  from Cons.prems(2) ys have s2: "sorted_wrt R ys'" by simp
  from Cons.prems(4) have a: "\<forall>a \<in> set xs. \<forall>b \<in> set xs. R a b \<and> R b a \<longrightarrow> a = b" by auto
  from Cons.IH [OF s1 s2 m a] \<open>x = y\<close> ys show ?case by simp
qed

lemma jsSort_order_independent:
  assumes "consistentComparator cmp" and "mset xs = mset ys"
    and "\<forall>a \<in> set xs. \<forall>b \<in> set xs. cmp a b \<le> 0 \<and> cmp b a \<le> 0 \<longrightarrow> a = b"
  shows "jsSort cmp xs = jsSort cmp ys"
proof (rule sorted_wrt_mset_unique [where R = "\<lambda>a b. cmp a b \<le> 0"])
  show "sorted_wrt (\<lambda>a b. cmp a b \<le> 0) (jsSort cmp xs)" using assms(1) by (rule sorted_jsSort)
  show "sorted_wrt (\<lambda>a b. cmp a b \<le> 0) (jsSort cmp ys)" using assms(1) by (rule sorted_jsSort)
  show "mset (jsSort cmp xs) = mset (jsSort cmp ys)" using assms(2) by simp
  show "\<forall>a \<in> set (jsSort cmp xs). \<forall>b \<in> set (jsSort cmp xs).
          cmp a b \<le> 0 \<and> cmp b a \<le> 0 \<longrightarrow> a = b"
    using assms(3) by simp
qed

lemma compareStrings_strict: "compareStrings a b \<le> 0 \<Longrightarrow> compareStrings b a \<le> 0 \<Longrightarrow> a = b"
proof (induction a b rule: compareStrings.induct)
  case (4 x xs y ys)
  show ?case
  proof (cases "(of_char x :: nat) = of_char y")
    case True
    with 4 show ?thesis by simp
  next
    case False
    with "4.prems" show ?thesis by (auto split: if_splits)
  qed
qed simp_all

lemma strict_compareStrings: "strictComparator compareStrings"
  unfolding strictComparator_def using compareStrings_strict by blast

lemmas symbols_eval = sample_defs get_def getCacheKey_def date_now_def CACHE_TTL_def Let_def
  emit_def symbolHandler_def parseSymbolFromFile_def symbolKeywords_def lineTerminator_def
  replaceHyphens_def create_def endsWith_def jsSort_def nextModulePath_def

lemma readdir_update_fields:
  "fs_access (env\<lparr>fs_readdir := f\<rparr>) = fs_access env"
  "cargo_metadata (env\<lparr>fs_readdir := f\<rparr>) = cargo_metadata env"
  "path_join (env\<lparr>fs_readdir := f\<rparr>) = path_join env"
  by simp_all

lemma checkDoc_other_listing: "checkDoc (env\<lparr>fs_readdir := f\<rparr>) = checkDoc env"
  unfolding checkDoc_def verifyProjectPath_def checkDoc_miss_def getTargetDir_def
    checkDoc_access_def readdir_update_fields ..

text \<open>
  Claim C9 (ordering of listSymbols), with the order that the code sorts by. For a
  \<open>localeCompare\<close> that is a consistent comparator, the symbols that a successful
  \<open>listSymbols\<close> returns are the stable sort by \<open>path\<close> of the symbols in traversal
  order: they are sorted in the order of \<open>localeCompare\<close>, they are the same symbols, and
  symbols of one path keep their traversal order. When \<open>localeCompare\<close> compares no two
  different strings as equal and no two symbols have the same path, every order of
  collecting the same symbols gives the same result.
\<close>

theorem listSymbols_stable_sort:
  assumes "fst (listSymbols env pp cn w) = Inr symbols"
    and "consistentComparator (localeCompare env)"
  shows "\<exists>e es.
           cache (snd (checkDoc env pp cn w)) (getCacheKey pp cn) = Some e
         \<and> fs_readdir env (path_dirname env (docPath e)) = Some es
         \<and> symbols = jsSort (byPath env) (symbolsIn env cn (path_dirname env (docPath e)) [] es)
         \<and> sorted_wrt (\<lambda>a b. localeCompare env (path a) (path b) \<le> 0) symbols
         \<and> mset symbols = mset (symbolsIn env cn (path_dirname env (docPath e)) [] es)
         \<and> (\<forall>p. filter (\<lambda>s. path s = p) symbols
                 = filter (\<lambda>s. path s = p)
                     (symbolsIn env cn (path_dirname env (docPath e)) [] es))
         \<and> (\<forall>ys. mset ys = mset (symbolsIn env cn (path_dirname env (docPath e)) [] es)
                  \<and> strictComparator (localeCompare env)
                  \<and> distinct (map path (symbolsIn env cn (path_dirname env (docPath e)) [] es))
                \<longrightarrow> jsSort (byPath env) ys = symbols)"
proof -
  from listSymbols_results [OF assms(1)] obtain e es where
    c: "cache (snd (checkDoc env pp cn w)) (getCacheKey pp cn) = Some e"
    and d: "fs_readdir env (path_dirname env (docPath e)) = Some es"
    and r: "symbols = jsSort (byPath env)
                        (symbolsIn env cn (path_dirname env (docPath e)) [] es)"
    by blast
  let ?xs = "symbolsIn env cn (path_dirname env (docPath e)) [] es"
  have cons: "consistentComparator (byPath env)" using assms(2) by (rule consistent_byPath)
  have "sorted_wrt (\<lambda>a b. byPath env a b \<le> 0) symbols"
    unfolding r using cons by (rule sorted_jsSort)
  then have srt: "sorted_wrt (\<lambda>a b. localeCompare env (path a) (path b) \<le> 0) symbols"
    by (simp add: byPath_def)
  have ms: "mset symbols = mset ?xs" unfolding r by simp
  have refl: "localeCompare env p p \<le> 0" for p
    using assms(2) unfolding consistentComparator_def by blast
  have stab: "\<forall>p. filter (\<lambda>s. path s = p) symbols = filter (\<lambda>s. path s = p) ?xs"
  proof
    fix p
    have "\<forall>a b. path a = p \<and> path b = p \<longrightarrow> byPath env a b \<le> 0"
      using refl by (simp add: byPath_def)
    then show "filter (\<lambda>s. path s = p) symbols = filter (\<lambda>s. path s = p) ?xs"
      unfolding r by (rule filter_jsSort_stable)
  qed
  have ind: "\<forall>ys. mset ys = mset ?xs \<and> strictComparator (localeCompare env)
                  \<and> distinct (map path ?xs) \<longrightarrow> jsSort (byPath env) ys = symbols"
  proof (intro allI impI)
    fix ys
    assume a: "mset ys = mset ?xs \<and> strictComparator (localeCompare env)
                  \<and> distinct (map path ?xs)"
    then have inj: "inj_on path (set ?xs)" by (simp add: distinct_map)
    have anti: "\<forall>a \<in> set ?xs. \<forall>b \<in> set ?xs.
                  byPath env a b \<le> 0 \<and> byPath env b a \<le> 0 \<longrightarrow> a = b"
    proof (intro ballI impI)
      fix s t
      assume st: "s \<in> set ?xs" "t \<in> set ?xs"
        and "byPath env s t \<le> 0 \<and> byPath env t s \<le> 0"
      with a have "path s = path t" unfolding strictComparator_def byPath_def by blast
      with inj st show "s = t" by (simp add: inj_on_def)
    qed
    from a have "mset ?xs = mset ys" by simp
    from jsSort_order_independent [OF cons this anti] show "jsSort (byPath env) ys = symbols"
      unfolding r by simp
  qed
  from c d r srt ms stab ind show ?thesis
    by (intro exI [of _ e] exI [of _ es] conjI)
qed

theorem listSymbols_stable_sort_witness:
  "fst (listSymbols sampleEnv ''/proj'' ''my-crate'' sampleWorld) =
     Inr [\<lparr>name = ''Foo::Bar'', type = STRUCT, path = ''my-crate::Foo::Bar'',
           url = ''rustdoc:///t/doc/my-crate/struct.Foo-Bar.html''\<rparr>,
          \<lparr>name = ''Mode'', type = ENUM, path = ''my-crate::util::Mode'',
           url = ''rustdoc:///t/doc/my-crate/util/enum.Mode.html''\<rparr>,
          \<lparr>name = ''run'', type = FUNCTION, path = ''my-crate::util::run'',
           url = ''rustdoc:///t/doc/my-crate/util/fn.run.html''\<rparr>]
   \<and> consistentComparator (localeCompare sampleEnv)
   \<and> sorted_wrt (\<lambda>a b. localeCompare sampleEnv (path a) (path b) \<le> 0)
       [\<lparr>name = ''Foo::Bar'', type = STRUCT, path = ''my-crate::Foo::Bar'',
           url = ''rustdoc:///t/doc/my-crate/struct.Foo-Bar.html''\<rparr>,
          \<lparr>name = ''Mode'', type = ENUM, path = ''my-crate::util::Mode'',
           url = ''rustdoc:///t/doc/my-crate/util/enum.Mode.html''\<rparr>,
          \<lparr>name = ''run'', type = FUNCTION, path = ''my-crate::util::run'',
           url = ''rustdoc:///t/doc/my-crate/util/fn.run.html''\<rparr>]
   \<and> (\<exists>e es.
         cache (snd (checkDoc sampleEnv ''/proj'' ''my-crate'' sampleWorld))
           (getCacheKey ''/proj'' ''my-crate'') = Some e
       \<and> fs_readdir sampleEnv (path_dirname sampleEnv (docPath e)) = Some es
       \<and> [\<lparr>name = ''Foo::Bar'', type = STRUCT, path = ''my-crate::Foo::Bar'',
           url = ''rustdoc:///t/doc/my-crate/struct.Foo-Bar.html''\<rparr>,
          \<lparr>name = ''Mode'', type = ENUM, path = ''my-crate::util::Mode'',
           url = ''rustdoc:///t/doc/my-crate/util/enum.Mode.html''\<rparr>,
          \<lparr>name = ''run'', type = FUNCTION, path = ''my-crate::util::run'',
           url = ''rustdoc:///t/doc/my-crate/util/fn.run.html''\<rparr>]
          = jsSort (byPath sampleEnv)
              (symbolsIn sampleEnv ''my-crate'' (path_dirname sampleEnv (docPath e)) [] es))"
proof -
  have c: "consistentComparator (localeCompare sampleEnv)"
    by (simp add: sampleEnv_def consistent_compareStrings)
  from listSymbols_stable_sort [OF sample_listSymbols c]
  have "sorted_wrt (\<lambda>a b. localeCompare sampleEnv (path a) (path b) \<le> 0)
       [\<lparr>name = ''Foo::Bar'', type = STRUCT, path = ''my-crate::Foo::Bar'',
           url = ''rustdoc:///t/doc/my-crate/struct.Foo-Bar.html''\<rparr>,
          \<lparr>name = ''Mode'', type = ENUM, path = ''my-crate::util::Mode'',
           url = ''rustdoc:///t/doc/my-crate/util/enum.Mode.html''\<rparr>,
          \<lparr>name = ''run'', type = FUNCTION, path = ''my-crate::util::run'',
           url = ''rustdoc:///t/doc/my-crate/util/fn.run.html''\<rparr>]"
    and "\<exists>e es.
         cache (snd (checkDoc sampleEnv ''/proj'' ''my-crate'' sampleWorld))
           (getCacheKey ''/proj'' ''my-crate'') = Some e
       \<and> fs_readdir sampleEnv (path_dirname sampleEnv (docPath e)) = Some es
       \<and> [\<lparr>name = ''Foo::Bar'', type = STRUCT, path = ''my-crate::Foo::Bar'',
           url = ''rustdoc:///t/doc/my-crate/struct.Foo-Bar.html''\<rparr>,
          \<lparr>name = ''Mode'', type = ENUM, path = ''my-crate::util::Mode'',
           url = ''rustdoc:///t/doc/my-crate/util/enum.Mode.html''\<rparr>,
          \<lparr>name = ''run'', type = FUNCTION, path = ''my-crate::util::run'',
           url = ''rustdoc:///t/doc/my-crate/util/fn.run.html''\<rparr>]
          = jsSort (byPath sampleEnv)
              (symbolsIn sampleEnv ''my-crate'' (path_dirname sampleEnv (docPath e)) [] es)"
    by blast+
  with sample_listSymbols c show ?thesis by (intro conjI)
qed

text \<open>
  Symbols of one path come back in directory-entry order: the same two files listed in
  the two possible orders give two different results.
\<close>

theorem listSymbols_order_counterexample:
  "rev tieListing = [FileEnt ''macro.foo.html'' (Some []), FileEnt ''fn.foo.html'' (Some [])]
   \<and> fst (listSymbols (sampleEnv\<lparr>fs_readdir := (\<lambda>d. Some tieListing)\<rparr>) ''/proj'' ''my-crate''
            sampleWorld) =
       Inr [\<lparr>name = ''foo'', type = FUNCTION, path = ''my-crate::foo'',
             url = ''rustdoc:///t/doc/my-crate/fn.foo.html''\<rparr>,
            \<lparr>name = ''foo'', type = MACRO, path = ''my-crate::foo'',
             url = ''rustdoc:///t/doc/my-crate/macro.foo.html''\<rparr>]
   \<and> fst (listSymbols (sampleEnv\<lparr>fs_readdir := (\<lambda>d. Some (rev tieListing))\<rparr>) ''/proj''
            ''my-crate'' sampleWorld) =
       Inr [\<lparr>name = ''foo'', type = MACRO, path = ''my-crate::foo'',
             url = ''rustdoc:///t/doc/my-crate/macro.foo.html''\<rparr>,
            \<lparr>name = ''foo'', type = FUNCTION, path = ''my-crate::foo'',
             url = ''rustdoc:///t/doc/my-crate/fn.foo.html''\<rparr>]"
  unfolding listSymbols_def checkDoc_other_listing sample_checkDoc
  by (simp add: symbols_eval tieListing_def)

section \<open>The claims about the search limit\<close>

lemma searchHandler_limit_zero:
  "searchHandler env cn q \<lparr>limit = Some (Number 0)\<rparr> = searchHandler env cn q \<lparr>limit = None\<rparr>"
  by (intro ext) (simp add: searchHandler_def limitReached_def)

lemma searchDoc_limit_zero_eq:
  "searchDoc env pp cn q \<lparr>limit = Some (Number 0)\<rparr> w = searchDoc env pp cn q \<lparr>limit = None\<rparr> w"
  unfolding searchDoc_def searchHandler_limit_zero ..


text \<open>
  Claim C7 (search semantics), for every limit. The results of a successful \<open>searchDoc\<close>
  are, sorted by title with \<open>localeCompare\<close>, results for the documentation files whose
  content contains the query, both in lower case, taken in traversal order: all of them
  when the limit is absent, \<open>0\<close>, \<open>NaN\<close> or \<open>Infinity\<close>; the first \<open>\<lceil>limit\<rceil>\<close> of them for
  any other finite limit (none for a negative one); none for \<open>-Infinity\<close>. A result is
  titled by the path of the symbol parsed from the file name, or else by the file name
  without \<open>.html\<close>. So with a limit that is an integer of at least 1 there are at most
  \<open>limit\<close> results, and exactly \<open>limit\<close> when at least that many files match.
\<close>

theorem searchDoc_semantics:
  assumes "fst (searchDoc env pp cn query options w) = Inr rs"
  shows "\<exists>e es.
           cache (snd (checkDoc env pp cn w)) (getCacheKey pp cn) = Some e
         \<and> fs_readdir env (path_dirname env (docPath e)) = Some es
         \<and> (limit options = None \<or> limit options = Some (Number 0) \<or> limit options = Some NaN
              \<or> limit options = Some Infinity \<longrightarrow>
                rs = jsSort (byTitle env)
                       (allMatches env cn query (path_dirname env (docPath e)) es))
         \<and> (\<forall>l. limit options = Some (Number l) \<and> l \<noteq> 0 \<longrightarrow>
                rs = jsSort (byTitle env)
                       (take (nat \<lceil>l\<rceil>)
                          (allMatches env cn query (path_dirname env (docPath e)) es)))
         \<and> (limit options = Some NegInfinity \<longrightarrow> rs = [])
         \<and> (\<forall>n. limit options = Some (Number (of_nat n)) \<and> 1 \<le> n \<longrightarrow>
                length rs \<le> n
              \<and> (n \<le> length (allMatches env cn query (path_dirname env (docPath e)) es)
                   \<longrightarrow> length rs = n))
         \<and> (consistentComparator (localeCompare env) \<longrightarrow>
                sorted_wrt (\<lambda>a b. localeCompare env (title a) (title b) \<le> 0) rs)"
proof -
  from searchDoc_results [OF assms] obtain e es where
    c: "cache (snd (checkDoc env pp cn w)) (getCacheKey pp cn) = Some e"
    and d: "fs_readdir env (path_dirname env (docPath e)) = Some es"
    and r: "rs = jsSort (byTitle env)
                  (collected options [] (allMatches env cn query (path_dirname env (docPath e)) es))"
    by blast
  let ?all = "allMatches env cn query (path_dirname env (docPath e)) es"
  have unl: "limit options = None \<or> limit options = Some (Number 0) \<or> limit options = Some NaN
              \<or> limit options = Some Infinity \<longrightarrow> rs = jsSort (byTitle env) ?all"
    unfolding r by (auto simp: collected_def resultBound_def)
  have fin: "\<forall>l. limit options = Some (Number l) \<and> l \<noteq> 0 \<longrightarrow>
                rs = jsSort (byTitle env) (take (nat \<lceil>l\<rceil>) ?all)"
    unfolding r by (auto simp: collected_def resultBound_def)
  have neg: "limit options = Some NegInfinity \<longrightarrow> rs = []"
    unfolding r by (auto simp: collected_def resultBound_def jsSort_def)
  have int: "\<forall>n. limit options = Some (Number (of_nat n)) \<and> 1 \<le> n \<longrightarrow>
                length rs \<le> n \<and> (n \<le> length ?all \<longrightarrow> length rs = n)"
  proof (intro allI impI)
    fix n :: nat
    assume a: "limit options = Some (Number (of_nat n)) \<and> 1 \<le> n"
    then have "(of_nat n :: rat) \<noteq> 0" by simp
    with a fin have "rs = jsSort (byTitle env) (take (nat \<lceil>(of_nat n :: rat)\<rceil>) ?all)" by blast
    then have "rs = jsSort (byTitle env) (take n ?all)" by simp
    then show "length rs \<le> n \<and> (n \<le> length ?all \<longrightarrow> length rs = n)" by simp
  qed
  have srt: "consistentComparator (localeCompare env) \<longrightarrow>
                sorted_wrt (\<lambda>a b. localeCompare env (title a) (title b) \<le> 0) rs"
  proof
    assume "consistentComparator (localeCompare env)"
    then have "sorted_wrt (\<lambda>a b. byTitle env a b \<le> 0) rs"
      unfolding r by (intro sorted_jsSort consistent_byTitle)
    then show "sorted_wrt (\<lambda>a b. localeCompare env (title a) (title b) \<le> 0) rs"
      by (simp add: byTitle_def)
  qed
  from c d unl fin neg int srt show ?thesis
    by (intro exI [of _ e] exI [of _ es] conjI)
qed

theorem searchDoc_semantics_witness:
  "fst (searchDoc sampleEnv ''/proj'' ''my-crate'' ''Widget'' \<lparr>limit = Some (Number 2)\<rparr>
          sampleWorld) =
     Inr [\<lparr>title = ''all'', url = ''rustdoc:///t/doc/my-crate/all.html''\<rparr>,
          \<lparr>title = ''my-crate::Foo::Bar'',
           url = ''rustdoc:///t/doc/my-crate/struct.Foo-Bar.html''\<rparr>]
   \<and> consistentComparator (localeCompare sampleEnv)
   \<and> sorted_wrt (\<lambda>a b. localeCompare sampleEnv (title a) (title b) \<le> 0)
       [\<lparr>title = ''all'', url = ''rustdoc:///t/doc/my-crate/all.html''\<rparr>,
        \<lparr>title = ''my-crate::Foo::Bar'',
         url = ''rustdoc:///t/doc/my-crate/struct.Foo-Bar.html''\<rparr>]
   \<and> (\<exists>e es.
         cache (snd (checkDoc sampleEnv ''/proj'' ''my-crate'' sampleWorld))
           (getCacheKey ''/proj'' ''my-crate'') = Some e
       \<and> fs_readdir sampleEnv (path_dirname sampleEnv (docPath e)) = Some es
       \<and> [\<lparr>title = ''all'', url = ''rustdoc:///t/doc/my-crate/all.html''\<rparr>,
          \<lparr>title = ''my-crate::Foo::Bar'',
           url = ''rustdoc:///t/doc/my-crate/struct.Foo-Bar.html''\<rparr>]
           = jsSort (byTitle sampleEnv)
               (take 2 (allMatches sampleEnv ''my-crate'' ''Widget''
                          (path_dirname sampleEnv (docPath e)) es)))"
proof -
  have c: "consistentComparator (localeCompare sampleEnv)"
    by (simp add: sampleEnv_def consistent_compareStrings)
  have n: "nat \<lceil>2 :: rat\<rceil> = 2" by simp
  from searchDoc_semantics [OF sample_search_two] c
  have "sorted_wrt (\<lambda>a b. localeCompare sampleEnv (title a) (title b) \<le> 0)
       [\<lparr>title = ''all'', url = ''rustdoc:///t/doc/my-crate/all.html''\<rparr>,
        \<lparr>title = ''my-crate::Foo::Bar'',
         url = ''rustdoc:///t/doc/my-crate/struct.Foo-Bar.html''\<rparr>]"
    by blast
  moreover
  from searchDoc_semantics [OF sample_search_two]
  have "\<exists>e es.
         cache (snd (checkDoc sampleEnv ''/proj'' ''my-crate'' sampleWorld))
           (getCacheKey ''/proj'' ''my-crate'') = Some e
       \<and> fs_readdir sampleEnv (path_dirname sampleEnv (docPath e)) = Some es
       \<and> [\<lparr>title = ''all'', url = ''rustdoc:///t/doc/my-crate/all.html''\<rparr>,
          \<lparr>title = ''my-crate::Foo::Bar'',
           url = ''rustdoc:///t/doc/my-crate/struct.Foo-Bar.html''\<rparr>]
           = jsSort (byTitle sampleEnv)
               (take 2 (allMatches sampleEnv ''my-crate'' ''Widget''
                          (path_dirname sampleEnv (docPath e)) es))"
    by (elim exE conjE) (rule exI, rule exI, simp add: n)
  ultimately show ?thesis using sample_search_two c by (intro conjI)
qed

text \<open>
  The bound by the limit itself fails for \<open>0\<close> and for a fraction: the sample search
  returns three results with the limit \<open>0\<close> and two with the limit \<open>3/2\<close>.
\<close>

theorem searchDoc_limit_counterexample:
  "fst (searchDoc sampleEnv ''/proj'' ''my-crate'' ''Widget'' \<lparr>limit = Some (Number 0)\<rparr>
          sampleWorld) =
       Inr [\<lparr>title = ''all'', url = ''rustdoc:///t/doc/my-crate/all.html''\<rparr>,
            \<lparr>title = ''my-crate::Foo::Bar'',
             url = ''rustdoc:///t/doc/my-crate/struct.Foo-Bar.html''\<rparr>,
            \<lparr>title = ''my-crate::util::run'',
             url = ''rustdoc:///t/doc/my-crate/util/fn.run.html''\<rparr>]
   \<and> \<not> (of_nat (length
         [\<lparr>title = ''all'', url = ''rustdoc:///t/doc/my-crate/all.html''\<rparr>,
          \<lparr>title = ''my-crate::Foo::Bar'',
           url = ''rustdoc:///t/doc/my-crate/struct.Foo-Bar.html''\<rparr>,
          \<lparr>title = ''my-crate::util::run'',
           url = ''rustdoc:///t/doc/my-crate/util/fn.run.html''\<rparr>]) :: rat) \<le> 0
   \<and> fst (searchDoc sampleEnv ''/proj'' ''my-crate'' ''Widget'' \<lparr>limit = Some (Number (3 / 2))\<rparr>
          sampleWorld) =
       Inr [\<lparr>title = ''all'', url = ''rustdoc:///t/doc/my-crate/all.html''\<rparr>,
            \<lparr>title = ''my-crate::Foo::Bar'',
             url = ''rustdoc:///t/doc/my-crate/struct.Foo-Bar.html''\<rparr>]
   \<and> \<not> (of_nat (length
         [\<lparr>title = ''all'', url = ''rustdoc:///t/doc/my-crate/all.html''\<rparr>,
          \<lparr>title = ''my-crate::Foo::Bar'',
           url = ''rustdoc:///t/doc/my-crate/struct.Foo-Bar.html''\<rparr>]) :: rat) \<le> 3 / 2"
  by (simp add: searchDoc_limit_zero_eq sample_search_unlimited sample_search_fraction)

text \<open>
  Claim C10 (limit 0). With \<open>limit = 0\<close> the limit check never fires, \<open>searchDoc\<close> does
  exactly what it does without a limit, and a successful search returns a result for
  every matching file of the tree.
\<close>

theorem searchDoc_limit_zero_unlimited:
  "limitReached \<lparr>limit = Some (Number 0)\<rparr> results = False
   \<and> searchDoc env pp cn query \<lparr>limit = Some (Number 0)\<rparr> w = searchDoc env pp cn query \<lparr>limit = None\<rparr> w
   \<and> (fst (searchDoc env pp cn query \<lparr>limit = Some (Number 0)\<rparr> w) = Inr rs \<longrightarrow>
        (\<exists>e es.
           cache (snd (checkDoc env pp cn w)) (getCacheKey pp cn) = Some e
         \<and> fs_readdir env (path_dirname env (docPath e)) = Some es
         \<and> rs = jsSort (byTitle env)
                  (allMatches env cn query (path_dirname env (docPath e)) es)
         \<and> length rs = length (allMatches env cn query (path_dirname env (docPath e)) es)))"
proof (intro conjI impI)
  show "limitReached \<lparr>limit = Some (Number 0)\<rparr> results = False" by (simp add: limitReached_def)
  show "searchDoc env pp cn query \<lparr>limit = Some (Number 0)\<rparr> w = searchDoc env pp cn query \<lparr>limit = None\<rparr> w"
    by (rule searchDoc_limit_zero_eq)
next
  assume "fst (searchDoc env pp cn query \<lparr>limit = Some (Number 0)\<rparr> w) = Inr rs"
  from searchDoc_results [OF this] obtain e es where
    "cache (snd (checkDoc env pp cn w)) (getCacheKey pp cn) = Some e"
    "fs_readdir env (path_dirname env (docPath e)) = Some es"
    "rs = jsSort (byTitle env)
            (collected \<lparr>limit = Some (Number 0)\<rparr> []
               (allMatches env cn query (path_dirname env (docPath e)) es))"
    by blast
  moreover have "collected \<lparr>limit = Some (Number 0)\<rparr> [] xs = xs" for xs :: "SearchResult list"
    by (simp add: collected_def resultBound_def)
  ultimately show "\<exists>e es.
           cache (snd (checkDoc env pp cn w)) (getCacheKey pp cn) = Some e
         \<and> fs_readdir env (path_dirname env (docPath e)) = Some es
         \<and> rs = jsSort (byTitle env)
                  (allMatches env cn query (path_dirname env (docPath e)) es)
         \<and> length rs = length (allMatches env cn query (path_dirname env (docPath e)) es)"
    by (intro exI [of _ e] exI [of _ es]) simp
qed

theorem searchDoc_limit_zero_unlimited_witness:
  "fst (searchDoc sampleEnv ''/proj'' ''my-crate'' ''Widget'' \<lparr>limit = Some (Number 0)\<rparr> sampleWorld) =
     Inr [\<lparr>title = ''all'', url = ''rustdoc:///t/doc/my-crate/all.html''\<rparr>,
          \<lparr>title = ''my-crate::Foo::Bar'',
           url = ''rustdoc:///t/doc/my-crate/struct.Foo-Bar.html''\<rparr>,
          \<lparr>title = ''my-crate::util::run'',
           url = ''rustdoc:///t/doc/my-crate/util/fn.run.html''\<rparr>]
   \<and> (\<exists>e es.
         cache (snd (checkDoc sampleEnv ''/proj'' ''my-crate'' sampleWorld))
           (getCacheKey ''/proj'' ''my-crate'') = Some e
       \<and> fs_readdir sampleEnv (path_dirname sampleEnv (docPath e)) = Some es
       \<and> length
           [\<lparr>title = ''all'', url = ''rustdoc:///t/doc/my-crate/all.html''\<rparr>,
            \<lparr>title = ''my-crate::Foo::Bar'',
             url = ''rustdoc:///t/doc/my-crate/struct.Foo-Bar.html''\<rparr>,
            \<lparr>title = ''my-crate::util::run'',
             url = ''rustdoc:///t/doc/my-crate/util/fn.run.html''\<rparr>]
          = length (allMatches sampleEnv ''my-crate'' ''Widget''
                      (path_dirname sampleEnv (docPath e)) es))"
proof -
  have z: "fst (searchDoc sampleEnv ''/proj'' ''my-crate'' ''Widget'' \<lparr>limit = Some (Number 0)\<rparr>
                  sampleWorld) =
     Inr [\<lparr>title = ''all'', url = ''rustdoc:///t/doc/my-crate/all.html''\<rparr>,
          \<lparr>title = ''my-crate::Foo::Bar'',
           url = ''rustdoc:///t/doc/my-crate/struct.Foo-Bar.html''\<rparr>,
          \<lparr>title = ''my-crate::util::run'',
           url = ''rustdoc:///t/doc/my-crate/util/fn.run.html''\<rparr>]"
    by (simp add: searchDoc_limit_zero_eq sample_search_unlimited)
  from searchDoc_limit_zero_unlimited
         [of "[]" sampleEnv "''/proj''" "''my-crate''" "''Widget''" sampleWorld
             "[\<lparr>title = ''all'', url = ''rustdoc:///t/doc/my-crate/all.html''\<rparr>,
               \<lparr>title = ''my-crate::Foo::Bar'',
                url = ''rustdoc:///t/doc/my-crate/struct.Foo-Bar.html''\<rparr>,
               \<lparr>title = ''my-crate::util::run'',
                url = ''rustdoc:///t/doc/my-crate/util/fn.run.html''\<rparr>]"] z
  have "\<exists>e es.
         cache (snd (checkDoc sampleEnv ''/proj'' ''my-crate'' sampleWorld))
           (getCacheKey ''/proj'' ''my-crate'') = Some e
       \<and> fs_readdir sampleEnv (path_dirname sampleEnv (docPath e)) = Some es
       \<and> length
           [\<lparr>title = ''all'', url = ''rustdoc:///t/doc/my-crate/all.html''\<rparr>,
            \<lparr>title = ''my-crate::Foo::Bar'',
             url = ''rustdoc:///t/doc/my-crate/struct.Foo-Bar.html''\<rparr>,
            \<lparr>title = ''my-crate::util::run'',
             url = ''rustdoc:///t/doc/my-crate/util/fn.run.html''\<rparr>]
          = length (allMatches sampleEnv ''my-crate'' ''Widget''
                      (path_dirname sampleEnv (docPath e)) es)"
    by blast
  with z show ?thesis by (intro conjI)
qed

section \<open>The claim about toolchain failures\<close>

text \<open>
  Claim C8 (metadata failure), at the input where it fails: the project is valid,
  \<open>cargo doc\<close> exits with 0 and \<open>cargo metadata\<close> fails. \<open>buildDoc\<close> throws \<open>BUILD_FAILED\<close>,
  carrying the \<open>CARGO_ERROR\<close> of \<open>getTargetDir\<close> as its details, after the build and the
  metadata query have run. \<open>checkDoc\<close> in the same environment throws \<open>CARGO_ERROR\<close>.
\<close>

theorem buildDoc_metadata_failure:
  "fs_access (sampleEnv\<lparr>cargo_metadata := (\<lambda>cwd. None)\<rparr>) ''/proj/Cargo.toml''
   \<and> cargo_doc (sampleEnv\<lparr>cargo_metadata := (\<lambda>cwd. None)\<rparr>)
        [''doc'', ''--no-deps'', ''-p'', ''my-crate''] ''/proj'' = Resolved 0 []
   \<and> cargo_metadata (sampleEnv\<lparr>cargo_metadata := (\<lambda>cwd. None)\<rparr>) ''/proj'' = None
   \<and> fst (buildDoc (sampleEnv\<lparr>cargo_metadata := (\<lambda>cwd. None)\<rparr>) ''/proj'' ''my-crate'' False
            sampleWorld)
       = Inl (DocError BUILD_FAILED ''Failed to build documentation''
                (Some (DocError CARGO_ERROR ''Failed to get target directory''
                         (Some RuntimeError))))
   \<and> trace (snd (buildDoc (sampleEnv\<lparr>cargo_metadata := (\<lambda>cwd. None)\<rparr>) ''/proj'' ''my-crate''
                    False sampleWorld))
       = [FsAccess ''/proj/Cargo.toml'',
          CargoDoc [''doc'', ''--no-deps'', ''-p'', ''my-crate''] ''/proj'',
          CargoMetadata ''/proj'']
   \<and> fst (checkDoc (sampleEnv\<lparr>cargo_metadata := (\<lambda>cwd. None)\<rparr>) ''/proj'' ''my-crate''
            sampleWorld)
       = Inl (DocError CARGO_ERROR ''Failed to check documentation status''
                (Some (DocError CARGO_ERROR ''Failed to get target directory''
                         (Some RuntimeError))))"
  by (simp add: buildDoc_def buildDoc_try_def checkDoc_defs sample_defs getCacheKey_def)

end
